theory Spec2Isabelle
  imports Main "HOL-Library.List_Lexorder" "HOL-Library.Char_ord"
begin

section \<open>The AST frontend adapter (finder/ast\_utils.py)\<close>

text \<open>
  The analyzer walks libclang cursors. A cursor is modelled as a tree node carrying its kind,
  the attributes the analyzer reads, and its children (\<open>get_children()\<close>). The cursor kinds
  are the ones the source names; every other kind is \<open>OTHER_KIND\<close>.
\<close>

datatype kind =
    FUNCTION_DECL | FUNCTION_TEMPLATE | PARM_DECL | VAR_DECL | DECL_STMT
  | COMPOUND_STMT | IF_STMT | SWITCH_STMT | CASE_STMT | DEFAULT_STMT
  | CONDITIONAL_OPERATOR | FOR_STMT | WHILE_STMT | DO_STMT | BREAK_STMT | CONTINUE_STMT
  | RETURN_STMT | CALL_EXPR | BINARY_OPERATOR | UNARY_OPERATOR | MEMBER_REF_EXPR
  | ARRAY_SUBSCRIPT_EXPR | DECL_REF_EXPR | PAREN_EXPR | CSTYLE_CAST_EXPR | UNEXPOSED_EXPR
  | INTEGER_LITERAL | OTHER_KIND

text \<open>
  A cursor that another cursor points to (\<open>get_definition()\<close>, \<open>referenced\<close>, \<open>canonical\<close>):
  its kind, names and hash. Its children are looked up by hash in the translation unit.
\<close>

record decl_ref =
  ref_kind :: kind
  ref_spelling :: string
  ref_displayname :: string
  ref_hash :: nat

record source_location =
  loc_file :: "string option"
  loc_line :: nat
  loc_column :: nat

record attrs =
  spelling :: string
  displayname :: string
  get_definition :: "decl_ref option"
  referenced :: "decl_ref option"
  canonical :: "decl_ref option"
  hash :: nat
  location :: source_location
  tokens :: "string list"
  evaluate :: "string option"
  result_type :: string

datatype cursor = Cursor (kind: kind) (attrs: attrs) (get_children: "cursor list")

text \<open>The translation unit: the declaration cursor behind each hash.\<close>

type_synonym tu = "nat \<rightharpoonup> cursor"

definition decl_children :: "tu \<Rightarrow> decl_ref \<Rightarrow> cursor list" where
  "decl_children tu r = (case tu (ref_hash r) of None \<Rightarrow> [] | Some c \<Rightarrow> get_children c)"

text \<open>Python's \<open>a or b\<close> on strings and on optional cursors.\<close>

definition str_or :: "string \<Rightarrow> string \<Rightarrow> string" where
  "str_or a b = (if a \<noteq> [] then a else b)"

definition opt_or :: "'a option \<Rightarrow> 'a option \<Rightarrow> 'a option" where
  "opt_or a b = (case a of Some x \<Rightarrow> Some x | None \<Rightarrow> b)"

definition nth_opt :: "'a list \<Rightarrow> nat \<Rightarrow> 'a option" where
  "nth_opt xs n = (if n < length xs then Some (xs ! n) else None)"

definition callee_name :: "cursor \<Rightarrow> string" where
  "callee_name call =
     (case opt_or (get_definition (attrs call)) (referenced (attrs call)) of
        None \<Rightarrow> str_or (spelling (attrs call)) (displayname (attrs call))
      | Some ref \<Rightarrow> str_or (ref_spelling ref) (ref_displayname ref))"

definition callee_definition :: "cursor \<Rightarrow> decl_ref option" where
  "callee_definition call =
     (case opt_or (get_definition (attrs call)) (referenced (attrs call)) of
        None \<Rightarrow> None
      | Some ref \<Rightarrow>
          if ref_kind ref = FUNCTION_DECL \<or> ref_kind ref = FUNCTION_TEMPLATE then Some ref
          else None)"

definition first_compound :: "cursor list \<Rightarrow> cursor option" where
  "first_compound cs = find (\<lambda>ch. kind ch = COMPOUND_STMT) cs"

definition function_body_cursor :: "cursor \<Rightarrow> cursor option" where
  "function_body_cursor fn = first_compound (get_children fn)"

section \<open>The catalog (finder/catalog.py)\<close>

text \<open>A compiled regular expression is modelled by its \<open>search\<close> predicate.\<close>

record HelperConfig =
  benign :: "string set"
  benign_regex :: "(string \<Rightarrow> bool) list"
  helpers :: "string set"
  helpers_regex :: "(string \<Rightarrow> bool) list"

definition any_match :: "HelperConfig \<Rightarrow> string \<Rightarrow> string \<Rightarrow> bool" where
  "any_match h name which =
     (if which = ''benign'' then name \<in> benign h \<or> list_ex (\<lambda>r. r name) (benign_regex h)
      else name \<in> helpers h \<or> list_ex (\<lambda>r. r name) (helpers_regex h))"

record ApiCatalog =
  libc :: "string set"
  syscalls :: "string set"
  target_names :: "string set"
  cat_helpers :: HelperConfig
  thin_aliases :: "string set"
  name_to_category :: "string \<rightharpoonup> string"

definition category_of :: "ApiCatalog \<Rightarrow> string \<Rightarrow> string" where
  "category_of catalog name =
     (case name_to_category catalog name of
        Some cat \<Rightarrow>
          if cat \<noteq> [] then cat
          else if name \<in> libc catalog then ''libc''
          else if name \<in> syscalls catalog then ''system_calls''
          else ''unknown''
      | None \<Rightarrow>
          if name \<in> libc catalog then ''libc''
          else if name \<in> syscalls catalog then ''system_calls''
          else ''unknown'')"

section \<open>Target detection for one call (cwrappers/finder/analysis.py)\<close>

definition is_helper_call :: "cursor \<Rightarrow> HelperConfig \<Rightarrow> string \<Rightarrow> bool" where
  "is_helper_call call h knd =
     any_match h (callee_name call) (if knd = ''benign'' then ''benign'' else ''helpers'')"

definition call_hits_target_via_one_hop :: "tu \<Rightarrow> cursor \<Rightarrow> string set \<Rightarrow> bool" where
  "call_hits_target_via_one_hop tu call T =
     (case callee_definition call of
        None \<Rightarrow> False
      | Some callee \<Rightarrow>
          (case first_compound (decl_children tu callee) of
             None \<Rightarrow> False
           | Some body \<Rightarrow>
               list_ex (\<lambda>ch. kind ch = CALL_EXPR \<and> callee_name ch \<in> T) (get_children body)))"

definition is_small_function :: "tu \<Rightarrow> decl_ref \<Rightarrow> nat \<Rightarrow> bool" where
  "is_small_function tu fn max_stmts =
     (case first_compound (decl_children tu fn) of
        None \<Rightarrow> False
      | Some body \<Rightarrow>
          length (filter (\<lambda>c. kind c \<noteq> DECL_STMT) (get_children body)) \<le> max_stmts)"

text \<open>
  The bounded depth-first search. \<open>max_hops\<close> is a natural number here: the source returns
  False at once for every value below 1. The visited set \<open>seen\<close> is mutated in the source
  and shared by all recursive calls, so it is threaded through and returned.
\<close>

fun call_hits_target_via_n_hops ::
    "tu \<Rightarrow> string set \<Rightarrow> nat \<Rightarrow> cursor \<Rightarrow> nat set \<Rightarrow> bool \<times> nat set"
and n_hops_children ::
    "tu \<Rightarrow> string set \<Rightarrow> nat \<Rightarrow> cursor list \<Rightarrow> nat set \<Rightarrow> bool \<times> nat set"
where
  "call_hits_target_via_n_hops tu T 0 call seen = (False, seen)"
| "call_hits_target_via_n_hops tu T (Suc n) call seen =
     (case callee_definition call of
        None \<Rightarrow> (False, seen)
      | Some callee \<Rightarrow>
          if \<not> is_small_function tu callee 6 then (False, seen)
          else if ref_hash callee \<in> seen then (False, seen)
          else (case first_compound (decl_children tu callee) of
                  None \<Rightarrow> (False, insert (ref_hash callee) seen)
                | Some body \<Rightarrow>
                    n_hops_children tu T n (get_children body) (insert (ref_hash callee) seen)))"
| "n_hops_children tu T n [] seen = (False, seen)"
| "n_hops_children tu T n (ch # chs) seen =
     (if kind ch = CALL_EXPR then
        (if callee_name ch \<in> T then (True, seen)
         else (case call_hits_target_via_n_hops tu T n ch seen of
                 (True, seen') \<Rightarrow> (True, seen')
               | (False, seen') \<Rightarrow> n_hops_children tu T n chs seen'))
      else n_hops_children tu T n chs seen)"

text \<open>
  Strings are Python \<open>str\<close> values. A \<open>char\<close> stands for one character of the string, by
  its code point (\<open>of_char\<close>), so the strings of the model are those of code points below 256.
  The character classes below are Python's Unicode-aware ones on that range.
\<close>

text \<open>
  The regular expression \<open>(?:SYS|__NR)_(\w+)\<close>, searched from the left. On a \<open>str\<close> pattern
  \<open>\w\<close> matches the underscore and every alphanumeric character: the ASCII letters and digits
  and, from U+0080 to U+00FF, the code points AA, B2, B3, B5, B9, BA, BC to BE, C0 to D6,
  D8 to F6 and F8 to FF.
\<close>

definition is_word_char :: "char \<Rightarrow> bool" where
  "is_word_char c =
     (let n = (of_char c :: nat) in
      (48 \<le> n \<and> n \<le> 57) \<or> (65 \<le> n \<and> n \<le> 90) \<or> n = 95 \<or> (97 \<le> n \<and> n \<le> 122)
      \<or> n = 170 \<or> n = 178 \<or> n = 179 \<or> n = 181 \<or> n = 185 \<or> n = 186
      \<or> (188 \<le> n \<and> n \<le> 190) \<or> (192 \<le> n \<and> n \<le> 214) \<or> (216 \<le> n \<and> n \<le> 246)
      \<or> (248 \<le> n \<and> n \<le> 255))"

definition match_sys_here :: "string \<Rightarrow> string option" where
  "match_sys_here s =
     (if take 4 s = ''SYS_'' then
        (let w = takeWhile is_word_char (drop 4 s) in if w \<noteq> [] then Some w else None)
      else if take 5 s = ''__NR_'' then
        (let w = takeWhile is_word_char (drop 5 s) in if w \<noteq> [] then Some w else None)
      else None)"

fun re_search_sys :: "string \<Rightarrow> string option" where
  "re_search_sys [] = None"
| "re_search_sys (c # cs) =
     (case match_sys_here (c # cs) of Some w \<Rightarrow> Some w | None \<Rightarrow> re_search_sys cs)"

text \<open>The module-level table \<open>SYSNR_TO_NAME\<close> is empty and nothing in the repository fills it.\<close>

definition SYSNR_TO_NAME :: "string \<rightharpoonup> string" where
  "SYSNR_TO_NAME = Map.empty"

definition resolve_syscall_indirection :: "cursor \<Rightarrow> string option" where
  "resolve_syscall_indirection call =
     (if callee_name call \<noteq> ''syscall'' then None
      else if length (get_children call) < 2 then None
      else
        (let selector = get_children call ! 1;
             txt = concat (tokens (attrs selector))
         in case re_search_sys txt of
              Some g \<Rightarrow> Some g
            | None \<Rightarrow>
                (case evaluate (attrs selector) of
                   None \<Rightarrow> None
                 | Some num \<Rightarrow> if num \<noteq> [] \<and> num \<in> dom SYSNR_TO_NAME then SYSNR_TO_NAME num else None)))"

text \<open>Python's \<open>mapped and mapped in target_names\<close>.\<close>

definition mapped_in :: "string option \<Rightarrow> string set \<Rightarrow> bool" where
  "mapped_in mapped T = (case mapped of None \<Rightarrow> False | Some m \<Rightarrow> m \<noteq> [] \<and> m \<in> T)"

definition inner_target_from_one_hop :: "tu \<Rightarrow> cursor \<Rightarrow> string set \<Rightarrow> string option" where
  "inner_target_from_one_hop tu call T =
     (case callee_definition call of
        None \<Rightarrow> None
      | Some defn \<Rightarrow>
          (case first_compound (decl_children tu defn) of
             None \<Rightarrow> None
           | Some body \<Rightarrow>
               map_option callee_name
                 (find (\<lambda>ch. kind ch = CALL_EXPR \<and> callee_name ch \<in> T) (get_children body))))"

section \<open>The per-path counter (cwrappers/finder/analysis.py)\<close>

fun count_calls_in_expr :: "tu \<Rightarrow> string set \<Rightarrow> HelperConfig \<Rightarrow> int \<Rightarrow> cursor \<Rightarrow> nat" where
  "count_calls_in_expr tu T H max_helper_hops (Cursor k a children) =
     sum_list (map (\<lambda>ch.
        (if kind ch = CALL_EXPR then
           (if is_helper_call ch H ''benign'' then 0
            else if callee_name ch \<in> T then 1
            else if mapped_in (resolve_syscall_indirection ch) T then 1
            else if call_hits_target_via_one_hop tu ch T
                    \<or> (max_helper_hops > 1
                        \<and> fst (call_hits_target_via_n_hops tu T (nat max_helper_hops) ch {}))
                 then 1
            else 0)
         else 0)
        + count_calls_in_expr tu T H max_helper_hops ch) children)"

record PathResult =
  counts :: "nat set"
  unknown :: bool

definition merge_pr :: "PathResult \<Rightarrow> PathResult \<Rightarrow> PathResult" where
  "merge_pr a b = \<lparr>counts = counts a \<union> counts b, unknown = (unknown a \<or> unknown b)\<rparr>"

definition cap_union :: "nat set \<Rightarrow> nat \<Rightarrow> nat set" where
  "cap_union sumset val =
     (\<lambda>s. if s + val \<le> 2 then s + val else 2) ` (if sumset = {} then {0} else sumset)"

text \<open>The loop body: the last compound-statement child.\<close>

definition loop_body :: "cursor list \<Rightarrow> cursor option" where
  "loop_body children =
     foldl (\<lambda>body ch. if kind ch = COMPOUND_STMT then Some ch else body) None children"

lemma child_size: "c \<in> set (get_children s) \<Longrightarrow> size c < size s"
  by (cases s) (auto simp: less_Suc_eq_le dest: size_list_estimation')

lemma nth_opt_mem: "nth_opt xs n = Some x \<Longrightarrow> x \<in> set xs"
  by (auto simp: nth_opt_def split: if_splits)

lemma loop_body_mem_aux:
  "foldl (\<lambda>body ch. if kind ch = COMPOUND_STMT then Some ch else body) b0 cs = Some b
   \<Longrightarrow> b \<in> set cs \<or> b0 = Some b"
  by (induction cs arbitrary: b0) (auto split: if_splits)

lemma loop_body_mem: "loop_body cs = Some b \<Longrightarrow> b \<in> set cs"
  using loop_body_mem_aux [of None cs b] by (simp add: loop_body_def)

function analyze_stmt :: "tu \<Rightarrow> string set \<Rightarrow> HelperConfig \<Rightarrow> int \<Rightarrow> cursor \<Rightarrow> PathResult" where
  "analyze_stmt tu T H max_helper_hops stmt =
     (if kind stmt = RETURN_STMT then
        (let cnt = sum_list (map (count_calls_in_expr tu T H max_helper_hops) (get_children stmt))
         in \<lparr>counts = {if cnt \<le> 2 then cnt else 2}, unknown = False\<rparr>)
      else if kind stmt = CALL_EXPR then
        (if is_helper_call stmt H ''benign'' then \<lparr>counts = {0}, unknown = False\<rparr>
         else
           (let val =
              (if callee_name stmt \<in> T then 1
               else if mapped_in (resolve_syscall_indirection stmt) T then 1
               else if call_hits_target_via_one_hop tu stmt T
                       \<or> (max_helper_hops > 1
                           \<and> fst (call_hits_target_via_n_hops tu T (nat max_helper_hops) stmt {}))
                    then 1
               else 0)
            in \<lparr>counts = {val}, unknown = False\<rparr>))
      else if kind stmt = IF_STMT then
        (let pr_then = (case nth_opt (get_children stmt) 1 of
                          Some then_branch \<Rightarrow> analyze_stmt tu T H max_helper_hops then_branch
                        | None \<Rightarrow> \<lparr>counts = {0}, unknown = False\<rparr>);
             pr_else = (case nth_opt (get_children stmt) 2 of
                          Some else_branch \<Rightarrow> analyze_stmt tu T H max_helper_hops else_branch
                        | None \<Rightarrow> \<lparr>counts = {0}, unknown = False\<rparr>)
         in \<lparr>counts = counts pr_then \<union> counts pr_else,
             unknown = (unknown pr_then \<or> unknown pr_else)\<rparr>)
      else if kind stmt = SWITCH_STMT then
        (let acc_pr =
           foldl (\<lambda>acc ch.
              if kind ch = CASE_STMT \<or> kind ch = DEFAULT_STMT then
                merge_pr acc
                  (case nth_opt (get_children ch) 1 of
                     Some body \<Rightarrow> analyze_stmt tu T H max_helper_hops body
                   | None \<Rightarrow> \<lparr>counts = {0}, unknown = False\<rparr>)
              else acc)
             \<lparr>counts = {}, unknown = False\<rparr> (get_children stmt)
         in if counts acc_pr = {} then acc_pr\<lparr>counts := {0}\<rparr> else acc_pr)
      else if kind stmt = CONDITIONAL_OPERATOR then
        (let pr_then = (case nth_opt (get_children stmt) 1 of
                          Some then_node \<Rightarrow> analyze_stmt tu T H max_helper_hops then_node
                        | None \<Rightarrow> \<lparr>counts = {0}, unknown = False\<rparr>);
             pr_else = (case nth_opt (get_children stmt) 2 of
                          Some else_node \<Rightarrow> analyze_stmt tu T H max_helper_hops else_node
                        | None \<Rightarrow> \<lparr>counts = {0}, unknown = False\<rparr>)
         in merge_pr pr_then pr_else)
      else if kind stmt = FOR_STMT \<or> kind stmt = WHILE_STMT \<or> kind stmt = DO_STMT then
        (case loop_body (get_children stmt) of
           None \<Rightarrow> \<lparr>counts = {2}, unknown = True\<rparr>
         | Some body \<Rightarrow>
             (let pr_body = analyze_stmt tu T H 1 body
              in if \<exists>x \<in> counts pr_body. x \<ge> 2 then \<lparr>counts = {2}, unknown = True\<rparr>
                 else \<lparr>counts = counts pr_body \<union> {0, 1}, unknown = unknown pr_body\<rparr>))
      else if kind stmt = COMPOUND_STMT then
        (let acc_unknown =
           foldl (\<lambda>au ch.
              let child = analyze_stmt tu T H max_helper_hops ch
              in (\<Union>v \<in> counts child. cap_union (fst au) v, snd au \<or> unknown child))
             ({0}, False) (get_children stmt)
         in \<lparr>counts = fst acc_unknown, unknown = snd acc_unknown\<rparr>)
      else
        foldl (\<lambda>acc_pr ch. merge_pr acc_pr (analyze_stmt tu T H max_helper_hops ch))
          \<lparr>counts = {0}, unknown = False\<rparr> (get_children stmt))"
  by pat_completeness auto
termination
proof (relation "measure (\<lambda>(tu, T, H, hops, stmt). size stmt)")
qed (auto dest!: nth_opt_mem loop_body_mem intro: child_size less_trans [OF child_size child_size])

declare analyze_stmt.simps [simp del]


section \<open>Early guards and call-site collection (cwrappers/finder/analysis.py)\<close>

definition branch_has_immediate_return :: "cursor option \<Rightarrow> bool" where
  "branch_has_immediate_return node =
     (case node of
        None \<Rightarrow> False
      | Some n \<Rightarrow>
          list_ex (\<lambda>ch.
             kind ch = RETURN_STMT
             \<or> (kind ch = COMPOUND_STMT
                 \<and> (case filter (\<lambda>cc. kind cc \<noteq> DECL_STMT) (get_children ch) of
                       [] \<Rightarrow> False
                     | first # _ \<Rightarrow> kind first = RETURN_STMT)))
            (get_children n))"

definition has_early_guard_return :: "cursor \<Rightarrow> HelperConfig \<Rightarrow> bool" where
  "has_early_guard_return func_cursor H =
     (case function_body_cursor func_cursor of
        None \<Rightarrow> False
      | Some body \<Rightarrow>
          (let stmts = filter (\<lambda>c. kind c \<noteq> DECL_STMT) (get_children body) in
           if stmts = [] then False
           else
             (case dropWhile (\<lambda>s. kind s = CALL_EXPR \<and> is_helper_call s H ''helpers'') stmts of
                [] \<Rightarrow> False
              | s # _ \<Rightarrow>
                  if kind s \<noteq> IF_STMT then False
                  else branch_has_immediate_return (nth_opt (get_children s) 1)
                       \<or> branch_has_immediate_return (nth_opt (get_children s) 2))))"

text \<open>Decimal rendering of Python integers and lists of integers in f-strings.\<close>

fun str_nat :: "nat \<Rightarrow> string" where
  "str_nat n = (if n < 10 then [''0123456789'' ! n]
                else str_nat (n div 10) @ [''0123456789'' ! (n mod 10)])"

declare str_nat.simps [simp del]

fun str_join :: "string \<Rightarrow> string list \<Rightarrow> string" where
  "str_join sep [] = []"
| "str_join sep [x] = x"
| "str_join sep (x # y # ys) = x @ sep @ str_join sep (y # ys)"

definition str_nat_list :: "nat list \<Rightarrow> string" where
  "str_nat_list xs = ''['' @ str_join '', '' (map str_nat xs) @ '']''"

definition line_col :: "cursor \<Rightarrow> string" where
  "line_col c = str_nat (loc_line (location (attrs c))) @ '':''
                @ str_nat (loc_column (location (attrs c)))"

definition hits_target :: "tu \<Rightarrow> string set \<Rightarrow> cursor \<Rightarrow> bool" where
  "hits_target tu T n =
     (callee_name n \<in> T
      \<or> mapped_in (resolve_syscall_indirection n) T
      \<or> call_hits_target_via_one_hop tu n T
      \<or> fst (call_hits_target_via_n_hops tu T 2 n {}))"

fun collect_target_calls :: "tu \<Rightarrow> string set \<Rightarrow> cursor \<Rightarrow> (cursor \<times> string) list" where
  "collect_target_calls tu T (Cursor k a children) =
     (if k = CALL_EXPR \<and> hits_target tu T (Cursor k a children)
      then [(Cursor k a children, line_col (Cursor k a children))] else [])
     @ concat (map (collect_target_calls tu T) children)"

definition resolve_target_name_for_call :: "tu \<Rightarrow> cursor \<Rightarrow> ApiCatalog \<Rightarrow> string option" where
  "resolve_target_name_for_call tu call catalog =
     (let targets = target_names catalog; nm = callee_name call in
      if nm \<in> targets then Some nm
      else
        (let mapped = resolve_syscall_indirection call in
         if mapped_in mapped targets then mapped
         else if call_hits_target_via_one_hop tu call targets
                 \<or> fst (call_hits_target_via_n_hops tu targets 2 call {})
         then (let inner = inner_target_from_one_hop tu call targets in
               if mapped_in inner targets then inner else None)
         else None))"

section \<open>Parameter provenance (finder/provenance.py)\<close>

record TaintState =
  taint :: "string \<rightharpoonup> string list"
  ret_tainted :: bool
  ret_trace :: "string list"

definition mark :: "TaintState \<Rightarrow> string \<Rightarrow> string \<Rightarrow> TaintState" where
  "mark st key why =
     st\<lparr>taint := (taint st)(key \<mapsto> (case taint st key of None \<Rightarrow> [] | Some ws \<Rightarrow> ws) @ [why])\<rparr>"

definition is_tainted :: "TaintState \<Rightarrow> string \<Rightarrow> bool" where
  "is_tainted st key = (key \<in> dom (taint st))"

definition trace :: "TaintState \<Rightarrow> string \<Rightarrow> string list" where
  "trace st key = (case taint st key of None \<Rightarrow> [] | Some ws \<Rightarrow> ws)"

definition is_param :: "cursor \<Rightarrow> bool" where
  "is_param c = (kind c = PARM_DECL)"

definition var_key :: "cursor \<Rightarrow> string" where
  "var_key c =
     (case (if kind c = DECL_REF_EXPR \<and> referenced (attrs c) \<noteq> None then referenced (attrs c)
            else canonical (attrs c)) of
        Some base \<Rightarrow> ref_spelling base @ ''@'' @ str_nat (ref_hash base)
      | None \<Rightarrow> spelling (attrs c) @ ''@'' @ str_nat (hash (attrs c)))"

definition first_tainted :: "(bool \<times> string list) list \<Rightarrow> bool \<times> string list" where
  "first_tainted rs = (case find fst rs of Some r \<Rightarrow> (True, snd r) | None \<Rightarrow> (False, []))"

fun taint_expr :: "TaintState \<Rightarrow> HelperConfig \<Rightarrow> cursor \<Rightarrow> bool \<times> string list" where
  "taint_expr st H (Cursor k a children) =
     (if k = DECL_REF_EXPR then
        (if is_tainted st (var_key (Cursor k a children))
         then (True, trace st (var_key (Cursor k a children))) else (False, []))
      else if k = UNARY_OPERATOR \<or> k = CSTYLE_CAST_EXPR \<or> k = MEMBER_REF_EXPR
              \<or> k = ARRAY_SUBSCRIPT_EXPR then
        first_tainted (map (taint_expr st H) children)
      else if k = BINARY_OPERATOR then first_tainted (map (taint_expr st H) children)
      else if k = CALL_EXPR then
        (if is_helper_call (Cursor k a children) H ''benign'' then (False, []) else (False, []))
      else first_tainted (map (taint_expr st H) children))"

definition mark_all :: "TaintState \<Rightarrow> string \<Rightarrow> bool \<times> string list \<Rightarrow> TaintState" where
  "mark_all st key r = (if fst r then foldl (\<lambda>s reason. mark s key reason) st (snd r) else st)"

fun taint_stmt :: "HelperConfig \<Rightarrow> cursor \<Rightarrow> TaintState \<Rightarrow> TaintState" where
  "taint_stmt H (Cursor k a children) st =
     (if k = DECL_STMT then foldl (\<lambda>s child. taint_stmt H child s) st children
      else if k = VAR_DECL then
        foldl (\<lambda>s child. mark_all s (var_key (Cursor k a children)) (taint_expr s H child))
          st children
      else if k = BINARY_OPERATOR then
        (if length children = 2 \<and> kind (children ! 0) = DECL_REF_EXPR
         then mark_all st (var_key (children ! 0)) (taint_expr st H (children ! 1))
         else st)
      else if k = RETURN_STMT then
        foldl (\<lambda>s ch. let r = taint_expr s H ch in
                 if fst r then s\<lparr>ret_tainted := True, ret_trace := ret_trace s @ snd r\<rparr> else s)
          st children
      else foldl (\<lambda>s ch. taint_stmt H ch s) st children)"

definition extract_call_args :: "cursor \<Rightarrow> cursor list" where
  "extract_call_args call = (if get_children call = [] then [] else drop 1 (get_children call))"

definition arg_trace :: "nat \<Rightarrow> bool \<times> string list \<Rightarrow> string" where
  "arg_trace i r =
     ''arg'' @ str_nat i @ '':'' @ (if fst r then ''tainted'' else ''clean'')
     @ (if snd r \<noteq> [] then '' ['' @ str_join '' ; '' (snd r) @ '']'' else [])"

definition check_arguments_provenance ::
    "cursor \<Rightarrow> cursor list \<Rightarrow> HelperConfig \<Rightarrow> bool \<times> string list" where
  "check_arguments_provenance func calls H =
     (let state0 =
            foldl (\<lambda>s ch. if is_param ch
                            then mark s (var_key ch) (spelling (attrs ch) @ '' is param'') else s)
              \<lparr>taint = Map.empty, ret_tainted = False, ret_trace = []\<rparr> (get_children func)
      in case function_body_cursor func of
           None \<Rightarrow> (False, [''no-body''])
         | Some body \<Rightarrow>
             (let state = taint_stmt H body state0 in
              foldl (\<lambda>ok_trace call.
                  foldl (\<lambda>ok_trace i_arg.
                      let r = taint_expr state H (snd i_arg) in
                      (fst ok_trace \<and> fst r, snd ok_trace @ [arg_trace (fst i_arg) r]))
                    ok_trace (enumerate 0 (extract_call_args call)))
                (True, []) calls))"

section \<open>The wrapper decisions (cwrappers/finder/wrapper\_detection.py)\<close>

text \<open>The whitelist \<open>_ATOMIC_PAIRS\<close>: one family, the empty string, holding tuples and frozensets.\<close>

definition ATOMIC_PAIRS :: "string \<Rightarrow> (string \<times> string) set \<times> string set set" where
  "ATOMIC_PAIRS family =
     (if family = [] then
        ({(''open'', ''close''), (''fopen'', ''fclose''), (''socket'', ''close''),
          (''malloc'', ''free''), (''calloc'', ''free'')},
         {{''pthread_mutex_lock'', ''pthread_mutex_unlock''},
          {''pthread_rwlock_rdlock'', ''pthread_rwlock_unlock''}})
      else ({}, {}))"

definition is_atomic_pair :: "string list \<Rightarrow> string \<Rightarrow> bool" where
  "is_atomic_pair api_names family =
     (case api_names of
        [a, b] \<Rightarrow>
          (a, b) \<in> fst (ATOMIC_PAIRS family) \<or> (b, a) \<in> fst (ATOMIC_PAIRS family)
          \<or> {a, b} \<in> snd (ATOMIC_PAIRS family)
      | _ \<Rightarrow> False)"

text \<open>
  The evidence that \<open>walk_calls\<close> accumulates in the enclosing function's variables.
  \<open>via_hop_depth_ge2\<close> is not among them: the nested function declares only
  \<open>via_helper_hop\<close> nonlocal, so its assignment to \<open>via_hop_depth_ge2\<close> binds a local
  and the outer variable keeps its initial value False.
\<close>

record walk_state =
  w_via_helper_hop :: bool
  w_ignored_helpers :: "string set"
  w_hit_locs :: "string list"
  w_apis :: "string list"

definition add_hit_loc :: "cursor \<Rightarrow> walk_state \<Rightarrow> walk_state" where
  "add_hit_loc ch st =
     (if loc_file (location (attrs ch)) \<noteq> None then st\<lparr>w_hit_locs := w_hit_locs st @ [line_col ch]\<rparr>
      else st)"

definition add_inner :: "tu \<Rightarrow> string set \<Rightarrow> cursor \<Rightarrow> walk_state \<Rightarrow> walk_state" where
  "add_inner tu T ch st =
     (let inner = inner_target_from_one_hop tu ch T in
      if mapped_in inner T then st\<lparr>w_apis := w_apis st @ [the inner]\<rparr> else st)"

definition walk_visit :: "tu \<Rightarrow> string set \<Rightarrow> HelperConfig \<Rightarrow> cursor \<Rightarrow> walk_state \<Rightarrow> walk_state" where
  "walk_visit tu T H ch st =
     (if kind ch = CALL_EXPR then
        (if is_helper_call ch H ''helpers'' then
           st\<lparr>w_ignored_helpers := insert (str_or (callee_name ch) ''<anon>'') (w_ignored_helpers st)\<rparr>
         else if callee_name ch \<in> T then
           add_hit_loc ch (st\<lparr>w_apis := w_apis st @ [callee_name ch]\<rparr>)
         else if mapped_in (resolve_syscall_indirection ch) T then
           add_hit_loc ch (st\<lparr>w_apis := w_apis st @ [the (resolve_syscall_indirection ch)]\<rparr>)
         else if call_hits_target_via_one_hop tu ch T then
           add_hit_loc ch (add_inner tu T ch (st\<lparr>w_via_helper_hop := True\<rparr>))
         else if fst (call_hits_target_via_n_hops tu T 2 ch {}) then
           add_hit_loc ch (add_inner tu T ch (st\<lparr>w_via_helper_hop := True\<rparr>))
         else st)
      else st)"

fun walk_calls :: "tu \<Rightarrow> string set \<Rightarrow> HelperConfig \<Rightarrow> cursor \<Rightarrow> walk_state \<Rightarrow> walk_state" where
  "walk_calls tu T H (Cursor k a children) st =
     foldl (\<lambda>s ch. walk_calls tu T H ch (walk_visit tu T H ch s)) st children"

text \<open>
  The 11-tuple both analyzers return: keep, per\_path\_single, total\_hits, reason, hit\_locs,
  api\_name, derived\_from\_params, derivation\_trace, pair\_used, via\_helper\_hop,
  ignored\_helpers.
\<close>

type_synonym verdict =
  "bool \<times> bool \<times> nat \<times> string \<times> string list \<times> string option \<times> bool \<times> string list
   \<times> bool \<times> bool \<times> string list"

definition v_keep :: "verdict \<Rightarrow> bool" where
  "v_keep v = (case v of (k, _) \<Rightarrow> k)"
definition v_per_path_single :: "verdict \<Rightarrow> bool" where
  "v_per_path_single v = (case v of (_, p, _) \<Rightarrow> p)"
definition v_total_hits :: "verdict \<Rightarrow> nat" where
  "v_total_hits v = (case v of (_, _, n, _) \<Rightarrow> n)"
definition v_reason :: "verdict \<Rightarrow> string" where
  "v_reason v = (case v of (_, _, _, r, _) \<Rightarrow> r)"
definition v_hit_locs :: "verdict \<Rightarrow> string list" where
  "v_hit_locs v = (case v of (_, _, _, _, h, _) \<Rightarrow> h)"
definition v_api_name :: "verdict \<Rightarrow> string option" where
  "v_api_name v = (case v of (_, _, _, _, _, a, _) \<Rightarrow> a)"
definition v_derived_from_params :: "verdict \<Rightarrow> bool" where
  "v_derived_from_params v = (case v of (_, _, _, _, _, _, d, _) \<Rightarrow> d)"
definition v_derivation_trace :: "verdict \<Rightarrow> string list" where
  "v_derivation_trace v = (case v of (_, _, _, _, _, _, _, t, _) \<Rightarrow> t)"
definition v_pair_used :: "verdict \<Rightarrow> bool" where
  "v_pair_used v = (case v of (_, _, _, _, _, _, _, _, p, _) \<Rightarrow> p)"
definition v_via_helper_hop :: "verdict \<Rightarrow> bool" where
  "v_via_helper_hop v = (case v of (_, _, _, _, _, _, _, _, _, h, _) \<Rightarrow> h)"
definition v_ignored_helpers :: "verdict \<Rightarrow> string list" where
  "v_ignored_helpers v = (case v of (_, _, _, _, _, _, _, _, _, _, i) \<Rightarrow> i)"

text \<open>The thin-alias policy: the rejection it returns, if any.\<close>

definition thin_alias_reject :: "ApiCatalog \<Rightarrow> string \<Rightarrow> walk_state \<Rightarrow> bool \<Rightarrow> verdict option" where
  "thin_alias_reject catalog thin_policy w via_hop_depth_ge2 =
     (let total_hits = length (w_hit_locs w);
          ignored = sorted_list_of_set (w_ignored_helpers w)
      in
      if w_apis w \<noteq> [] then
        (let first_api = hd (w_apis w) in
         if first_api \<noteq> [] \<and> first_api \<in> thin_aliases catalog then
           (let pol = str_or thin_policy ''default'' in
            if pol = ''default'' \<or> pol = ''direct-only'' then
              (if w_via_helper_hop w then
                 Some (False, False, total_hits, ''reject: thin-alias-via-helper'', w_hit_locs w,
                       Some first_api, False, [], False, w_via_helper_hop w, ignored)
               else None)
            else if pol = ''allow-1-hop'' then
              (if via_hop_depth_ge2 then
                 Some (False, False, total_hits, ''reject: thin-alias-hop-depth>=2'', w_hit_locs w,
                       Some first_api, False, [], False, w_via_helper_hop w, ignored)
               else None)
            else None)
         else None)
      else None)"

text \<open>The decision after the body walk, from the evidence \<open>w\<close> that \<open>walk_calls\<close> collected.\<close>

definition strict_plus_decide ::
    "tu \<Rightarrow> cursor \<Rightarrow> ApiCatalog \<Rightarrow> string \<Rightarrow> nat \<Rightarrow> bool \<Rightarrow> walk_state \<Rightarrow> verdict" where
  "strict_plus_decide tu func_cursor catalog thin_policy max_pos guard_ok w =
     (let total_hits = length (w_hit_locs w);
          ignored = sorted_list_of_set (w_ignored_helpers w);
          via_hop_depth_ge2 = False;
          api0 = (if w_apis w \<noteq> [] then Some (hd (w_apis w)) else None)
      in
      if total_hits = 0 then
        (False, False, 0, ''no-calls'', [], None, False, [], False, w_via_helper_hop w, ignored)
      else
        (case thin_alias_reject catalog thin_policy w via_hop_depth_ge2 of
           Some v \<Rightarrow> v
         | None \<Rightarrow>
             if max_pos \<ge> 2 \<and> \<not> (total_hits = 2 \<and> is_atomic_pair (w_apis w) []) then
               (False, False, total_hits, ''reject: multi-call-per-path'', w_hit_locs w, api0,
                False, [], False, w_via_helper_hop w, ignored)
             else
               (let pair_used = (max_pos \<ge> 2);
                    counted_sites =
                      map fst (collect_target_calls tu (target_names catalog) func_cursor);
                    prov = check_arguments_provenance func_cursor counted_sites
                             (cat_helpers catalog);
                    reason = ''ok'' @ (if guard_ok then ''+ok-guard'' else [])
                             @ (if w_via_helper_hop w then ''+via-hop'' else [])
                             @ (if pair_used then ''+atomic-pair'' else [])
                in (True, True, total_hits, reason, w_hit_locs w, api0, fst prov, snd prov,
                    pair_used, w_via_helper_hop w, ignored))))"

definition analyze_wrapper_strict_plus :: "tu \<Rightarrow> cursor \<Rightarrow> ApiCatalog \<Rightarrow> string \<Rightarrow> verdict" where
  "analyze_wrapper_strict_plus tu func_cursor catalog thin_policy =
     (let targets = target_names catalog; helpers = cat_helpers catalog in
      case function_body_cursor func_cursor of
        None \<Rightarrow> (False, False, 0, ''no-body'', [], None, False, [], False, False, [])
      | Some body \<Rightarrow>
          (let pr = analyze_stmt tu targets helpers 2 body in
           if unknown pr then
             (False, False, 0, ''unknown-control-flow'', [], None, False, [], False, False, [])
           else
             (let cnts = counts pr;
                  max_pos = (if cnts \<noteq> {} then Max cnts else 0);
                  guard_ok = (0 \<in> cnts \<and> has_early_guard_return func_cursor (cat_helpers catalog))
              in
              if 0 \<in> cnts \<and> \<not> guard_ok then
                (False, False, 0, ''path-counts='' @ str_nat_list (sorted_list_of_set cnts),
                 [], None, False, [], False, False, [])
              else
                strict_plus_decide tu func_cursor catalog thin_policy max_pos guard_ok
                  (walk_calls tu targets helpers body
                     \<lparr>w_via_helper_hop = False, w_ignored_helpers = {}, w_hit_locs = [], w_apis = []\<rparr>))))"

text \<open>Python's truthiness of an optional string: present and not empty.\<close>

definition truthy :: "string option \<Rightarrow> bool" where
  "truthy nm = (case nm of None \<Rightarrow> False | Some s \<Rightarrow> s \<noteq> [])"

definition resolved_hits :: "tu \<Rightarrow> ApiCatalog \<Rightarrow> (cursor \<times> string) list \<Rightarrow> (string \<times> string) list" where
  "resolved_hits tu catalog hits =
     concat (map (\<lambda>call_loc.
        let nm = resolve_target_name_for_call tu (fst call_loc) catalog in
        if truthy nm then [(the nm, snd call_loc)] else []) hits)"

definition analyze_wrapper_relaxed :: "tu \<Rightarrow> cursor \<Rightarrow> ApiCatalog \<Rightarrow> verdict" where
  "analyze_wrapper_relaxed tu func_cursor catalog =
     (let targets = target_names catalog; helpers = cat_helpers catalog in
      case function_body_cursor func_cursor of
        None \<Rightarrow> (False, False, 0, ''no-body'', [], None, False, [], False, False, [])
      | Some body \<Rightarrow>
          (let pr = analyze_stmt tu targets helpers 2 body;
               keep = (\<exists>c \<in> counts pr. c > 0)
           in
           if \<not> keep then
             (False, False, 0, ''path-counts='' @ str_nat_list (sorted_list_of_set (counts pr)),
              [], None, False, [], False, False, [])
           else
             (let hits = collect_target_calls tu targets func_cursor;
                  rs = resolved_hits tu catalog hits;
                  apis = map fst rs;
                  hit_locs = map snd rs;
                  total_hits = length apis
              in
              if total_hits = 0 then
                (False, False, 0, ''no-calls'', [], None, False, [], False, False, [])
              else
                (True, counts pr \<subseteq> {0, 1}, total_hits, ''ok'', hit_locs, Some (hd apis),
                 True, [], False, False, []))))"

section \<open>The rows of the runner (finder/runner.py)\<close>

text \<open>
  The fields of \<open>Row\<close> that the per-function loop of \<open>run_finder\<close> fills from the analyzers.
  The call-graph fields (fan\_in, fan\_out, callees, function\_key) and arg\_pass are not modelled.
\<close>

record Row =
  row_file :: string
  row_function :: string
  api_called :: string
  category :: string
  total_target_calls :: nat
  hit_locs :: "string list"
  per_path_single :: bool
  derived_from_params :: bool
  derivation_trace :: "string list"
  reason :: string
  function_loc :: string
  pair_used :: bool
  via_helper_hop :: bool
  ignored_helpers :: "string list"
  family :: string
  is_thin_alias :: bool

definition legacy_map :: "string \<Rightarrow> string" where
  "legacy_map mode =
     (if mode = ''perpath_relaxed'' then ''relaxed''
      else if mode = ''single'' \<or> mode = ''perpath'' \<or> mode = ''perpath_strict_plus''
      then ''accurate''
      else mode)"

text \<open>Python's \<open>api_name or d\<close> on an optional string.\<close>

definition name_or :: "string option \<Rightarrow> string \<Rightarrow> string" where
  "name_or nm d = (if truthy nm then the nm else d)"

text \<open>The analysis of one function in mode ``all'': the local variables after the branch.\<close>

definition all_mode_verdict :: "tu \<Rightarrow> cursor \<Rightarrow> ApiCatalog \<Rightarrow> string \<Rightarrow> verdict" where
  "all_mode_verdict tu cursor catalog thin_policy =
     (let hits = collect_target_calls tu (target_names catalog) cursor;
          rs = resolved_hits tu catalog hits;
          apis = map fst rs;
          locs = map snd rs;
          total_hits = length apis
      in
      if total_hits > 0 then
        (let v = analyze_wrapper_strict_plus tu cursor catalog thin_policy;
             api_name = (if \<not> truthy (v_api_name v) \<and> apis \<noteq> [] then Some (hd apis)
                         else v_api_name v)
         in (v_keep v, v_per_path_single v, total_hits, v_reason v, locs, api_name,
             v_derived_from_params v, v_derivation_trace v, v_pair_used v, v_via_helper_hop v,
             v_ignored_helpers v))
      else
        (True, True, total_hits, ''N/A'', locs, None, False, [], False, False, []))"

text \<open>
  One iteration of the loop over the function definitions of a translation unit, for a
  function inside the project scope: the deduplication key and the row, or None where the
  source continues with the next function.
\<close>

definition function_row ::
    "tu \<Rightarrow> string \<Rightarrow> ApiCatalog \<Rightarrow> string \<Rightarrow> string \<Rightarrow> cursor
     \<Rightarrow> ((string \<times> string \<times> string) \<times> Row) option" where
  "function_row tu mode catalog thin_policy src cursor =
     (let func_name = spelling (attrs cursor);
          loc = location (attrs cursor);
          func_file = (case loc_file loc of Some f \<Rightarrow> f | None \<Rightarrow> src);
          func_loc = (case loc_file loc of
                        Some f \<Rightarrow> func_file @ '':'' @ str_nat (loc_line loc)
                      | None \<Rightarrow> ''-'');
          mode_eff = legacy_map mode;
          v = (if mode_eff = ''relaxed'' then analyze_wrapper_relaxed tu cursor catalog
               else if mode_eff = ''accurate''
               then analyze_wrapper_strict_plus tu cursor catalog thin_policy
               else all_mode_verdict tu cursor catalog thin_policy);
          api_name = v_api_name v
      in
      if (mode_eff = ''relaxed'' \<or> mode_eff = ''accurate'')
         \<and> (\<not> v_keep v \<or> v_total_hits v = 0 \<or> \<not> truthy api_name
             \<or> the api_name \<notin> target_names catalog)
      then None
      else
        Some ((func_name, func_loc, name_or api_name ''other''),
          \<lparr>row_file = func_file,
           row_function = func_name,
           api_called = (if mode_eff = ''all'' \<and> \<not> truthy api_name
                         then name_or api_name ''other'' else name_or api_name []),
           category = (if truthy api_name \<and> the api_name \<in> target_names catalog
                       then category_of catalog (name_or api_name [])
                       else if mode_eff = ''all'' \<and> \<not> truthy api_name then ''N/A''
                       else category_of catalog (name_or api_name [])),
           total_target_calls = v_total_hits v,
           hit_locs = v_hit_locs v,
           per_path_single = v_per_path_single v,
           derived_from_params = v_derived_from_params v,
           derivation_trace = v_derivation_trace v,
           reason = (if mode_eff = ''all'' \<and> \<not> truthy api_name then ''N/A''
                     else if v_reason v \<noteq> ''n/a'' then v_reason v
                     else if v_keep v then ''ok'' else ''-''),
           function_loc = func_loc,
           pair_used = v_pair_used v,
           via_helper_hop = v_via_helper_hop v,
           ignored_helpers = v_ignored_helpers v,
           family = (if truthy api_name \<and> the api_name \<in> thin_aliases catalog
                     then ''thin_alias'' else ''-''),
           is_thin_alias = (truthy api_name \<and> the api_name \<in> thin_aliases catalog)\<rparr>))"

text \<open>
  The loop over all translation units: each is given by its source path, its declarations and
  the in-project function definitions in pre-order. Rows are deduplicated by key.
\<close>

definition add_row ::
    "tu \<Rightarrow> string \<Rightarrow> ApiCatalog \<Rightarrow> string \<Rightarrow> string
     \<Rightarrow> (string \<times> string \<times> string) set \<times> Row list \<Rightarrow> cursor
     \<Rightarrow> (string \<times> string \<times> string) set \<times> Row list" where
  "add_row tu mode catalog thin_policy src acc cursor =
     (case function_row tu mode catalog thin_policy src cursor of
        None \<Rightarrow> acc
      | Some (dedup_key, r) \<Rightarrow>
          if dedup_key \<in> fst acc then acc
          else (insert dedup_key (fst acc), snd acc @ [r]))"

definition run_finder_rows ::
    "string \<Rightarrow> ApiCatalog \<Rightarrow> string \<Rightarrow> (string \<times> tu \<times> cursor list) list \<Rightarrow> Row list" where
  "run_finder_rows mode catalog thin_policy units =
     snd (foldl (\<lambda>acc unit.
            foldl (add_row (fst (snd unit)) mode catalog thin_policy (fst unit)) acc
              (snd (snd unit)))
          ({}, []) units)"

section \<open>Return pass-through (finder/provenance.py, compute\_arg\_ret\_pass\_multi)\<close>














section \<open>The rules as the specification states them\<close>

text \<open>
  The rule of the specification for one call expression, in its order: a benign helper
  contributes 0; else a target name contributes 1; else a \<open>syscall\<close> whose first argument
  names \<open>SYS_foo\<close> or \<open>__NR_foo\<close> with \<open>foo\<close> a target contributes 1; else a callee that
  reaches a target within the hop bound contributes 1; otherwise 0.
\<close>

text \<open>
  A text begins with \<open>SYS_foo\<close> or \<open>__NR_foo\<close> when \<open>foo\<close> is the whole identifier after
  the prefix; the name a text contains is the one of the leftmost such occurrence.
\<close>

definition begins_with_sys :: "string \<Rightarrow> string \<Rightarrow> bool" where
  "begins_with_sys txt foo =
     (\<exists>p post. txt = p @ foo @ post \<and> (p = ''SYS_'' \<or> p = ''__NR_'') \<and> foo \<noteq> []
        \<and> (\<forall>c \<in> set foo. is_word_char c) \<and> (post = [] \<or> \<not> is_word_char (hd post)))"

definition first_sys_name :: "string \<Rightarrow> string \<Rightarrow> bool" where
  "first_sys_name txt foo =
     (\<exists>pre rest. txt = pre @ rest \<and> begins_with_sys rest foo
        \<and> (\<forall>i < length pre. \<forall>g. \<not> begins_with_sys (drop i txt) g))"

definition syscall_hits :: "cursor \<Rightarrow> string set \<Rightarrow> bool" where
  "syscall_hits call T =
     (callee_name call = ''syscall'' \<and> length (get_children call) \<ge> 2 \<and>
      (\<exists>foo \<in> T. first_sys_name (concat (tokens (attrs (get_children call ! 1)))) foo))"

text \<open>
  The contribution of the fourth rule as the counter computes it: the one-hop test, and the
  bounded search when the bound exceeds 1.
\<close>

definition reaches_target_within :: "tu \<Rightarrow> string set \<Rightarrow> int \<Rightarrow> cursor \<Rightarrow> bool" where
  "reaches_target_within tu T max_hops call =
     (call_hits_target_via_one_hop tu call T
      \<or> (max_hops > 1 \<and> fst (call_hits_target_via_n_hops tu T (nat max_hops) call {})))"

definition call_contribution :: "tu \<Rightarrow> string set \<Rightarrow> HelperConfig \<Rightarrow> int \<Rightarrow> cursor \<Rightarrow> nat" where
  "call_contribution tu T H max_hops call =
     (if any_match H (callee_name call) ''benign'' then 0
      else if callee_name call \<in> T then 1
      else if syscall_hits call T then 1
      else if reaches_target_within tu T max_hops call then 1
      else 0)"










text \<open>The result of an optional branch: a missing branch counts as \<open>{0}\<close>.\<close>

definition branch_pr :: "tu \<Rightarrow> string set \<Rightarrow> HelperConfig \<Rightarrow> int \<Rightarrow> cursor option \<Rightarrow> PathResult" where
  "branch_pr tu T H hops b = (case b of Some s \<Rightarrow> analyze_stmt tu T H hops s
                              | None \<Rightarrow> \<lparr>counts = {0}, unknown = False\<rparr>)"

text \<open>The saturation invariant of a path result.\<close>

definition good :: "PathResult \<Rightarrow> bool" where
  "good pr = (counts pr \<noteq> {} \<and> (\<forall>x \<in> counts pr. x \<le> 2))"

section \<open>Example inputs\<close>

text \<open>
  Cursors as libclang produces them for small C functions, used to run the analyzers on
  concrete inputs. A call has the callee expression as its first child, then the arguments.
\<close>

definition attrs0 :: attrs where
  "attrs0 = \<lparr>spelling = [], displayname = [], get_definition = None, referenced = None,
             canonical = None, hash = 0,
             location = \<lparr>loc_file = None, loc_line = 0, loc_column = 0\<rparr>,
             tokens = [], evaluate = None, result_type = []\<rparr>"

definition ast :: "kind \<Rightarrow> cursor list \<Rightarrow> cursor" where
  "ast k cs = Cursor k attrs0 cs"

definition at_loc :: "nat \<Rightarrow> nat \<Rightarrow> source_location" where
  "at_loc ln col = \<lparr>loc_file = Some ''w.c'', loc_line = ln, loc_column = col\<rparr>"

definition fn_ref :: "string \<Rightarrow> nat \<Rightarrow> decl_ref" where
  "fn_ref name h = \<lparr>ref_kind = FUNCTION_DECL, ref_spelling = name, ref_displayname = name,
                    ref_hash = h\<rparr>"

definition var_ref :: "kind \<Rightarrow> string \<Rightarrow> nat \<Rightarrow> decl_ref" where
  "var_ref k name h = \<lparr>ref_kind = k, ref_spelling = name, ref_displayname = name, ref_hash = h\<rparr>"

definition use_var :: "kind \<Rightarrow> string \<Rightarrow> nat \<Rightarrow> cursor" where
  "use_var k name h =
     ast UNEXPOSED_EXPR
       [Cursor DECL_REF_EXPR (attrs0\<lparr>spelling := name, referenced := Some (var_ref k name h)\<rparr>) []]"

definition call_to :: "string \<Rightarrow> nat \<Rightarrow> nat \<Rightarrow> nat \<Rightarrow> cursor list \<Rightarrow> cursor" where
  "call_to name h ln col args =
     Cursor CALL_EXPR
       (attrs0\<lparr>spelling := name, displayname := name, referenced := Some (fn_ref name h),
               location := at_loc ln col\<rparr>)
       (ast UNEXPOSED_EXPR [Cursor DECL_REF_EXPR (attrs0\<lparr>spelling := name\<rparr>) []] # args)"

definition parm :: "string \<Rightarrow> nat \<Rightarrow> cursor" where
  "parm name h =
     Cursor PARM_DECL (attrs0\<lparr>spelling := name, hash := h,
                              canonical := Some (var_ref PARM_DECL name h)\<rparr>) []"

definition fn_def :: "string \<Rightarrow> string \<Rightarrow> nat \<Rightarrow> cursor list \<Rightarrow> cursor list \<Rightarrow> cursor" where
  "fn_def ret name h params stmts =
     Cursor FUNCTION_DECL
       (attrs0\<lparr>spelling := name, displayname := name, hash := h, result_type := ret,
               location := at_loc 3 5\<rparr>)
       (params @ [ast COMPOUND_STMT stmts])"

definition helpers0 :: HelperConfig where
  "helpers0 = \<lparr>benign = {}, benign_regex = [], helpers = {}, helpers_regex = []\<rparr>"

definition catalog0 :: ApiCatalog where
  "catalog0 = \<lparr>libc = {''close''}, syscalls = {}, target_names = {''close''},
               cat_helpers = helpers0, thin_aliases = {}, name_to_category = Map.empty\<rparr>"

text \<open>\<^verbatim>\<open>while (fd) close(fd);\<close> and \<^verbatim>\<open>while (fd) { close(fd); }\<close>\<close>

definition while_bare :: cursor where
  "while_bare = ast WHILE_STMT [use_var PARM_DECL ''fd'' 7,
                                 call_to ''close'' 9 3 30 [use_var PARM_DECL ''fd'' 7]]"

definition while_braced :: cursor where
  "while_braced = ast WHILE_STMT [use_var PARM_DECL ''fd'' 7,
      ast COMPOUND_STMT [call_to ''close'' 9 3 30 [use_var PARM_DECL ''fd'' 7]]]"

text \<open>\<^verbatim>\<open>int w(int fd){ if(fd<0) return -1; return close(fd); }\<close>\<close>

definition guard_if :: cursor where
  "guard_if = ast IF_STMT
     [ast BINARY_OPERATOR [use_var PARM_DECL ''fd'' 7, ast INTEGER_LITERAL []],
      ast RETURN_STMT [ast UNARY_OPERATOR [ast INTEGER_LITERAL []]]]"

definition guarded_wrapper :: cursor where
  "guarded_wrapper = fn_def ''int'' ''w'' 3 [parm ''fd'' 7]
     [guard_if,
      ast RETURN_STMT [call_to ''close'' 9 3 46 [use_var PARM_DECL ''fd'' 7]]]"


definition close_call :: cursor where
  "close_call = call_to ''close'' 9 3 30 [use_var PARM_DECL ''fd'' 7]"

text \<open>\<^verbatim>\<open>int w(int fd);\<close> (a declaration), \<^verbatim>\<open>void w(int fd){ while (fd) close(fd); }\<close>
  and \<^verbatim>\<open>int w(int fd){ if (fd) close(fd); return 0; }\<close>\<close>

definition declared_only :: cursor where
  "declared_only =
     Cursor FUNCTION_DECL (attrs0\<lparr>spelling := ''w'', displayname := ''w'', result_type := ''int''\<rparr>)
       [parm ''fd'' 7]"

definition looping_wrapper :: cursor where
  "looping_wrapper = fn_def ''void'' ''w'' 3 [parm ''fd'' 7] [while_bare]"

definition conditional_wrapper :: cursor where
  "conditional_wrapper = fn_def ''int'' ''w'' 3 [parm ''fd'' 7]
     [ast IF_STMT [use_var PARM_DECL ''fd'' 7, close_call],
      ast RETURN_STMT [ast INTEGER_LITERAL []]]"

text \<open>\<^verbatim>\<open>void w(int fd){ close(fd); }\<close> and \<^verbatim>\<open>void w(void){ sync(); }\<close>\<close>

definition plain_wrapper :: cursor where
  "plain_wrapper = fn_def ''void'' ''w'' 3 [parm ''fd'' 7] [close_call]"

definition sync_call :: cursor where
  "sync_call = call_to ''sync'' 12 3 16 []"

definition sync_wrapper :: cursor where
  "sync_wrapper = fn_def ''void'' ''w'' 3 [] [sync_call]"

definition catalog_sync :: ApiCatalog where
  "catalog_sync = \<lparr>libc = {''sync''}, syscalls = {}, target_names = {''sync''},
                   cat_helpers = helpers0, thin_aliases = {}, name_to_category = Map.empty\<rparr>"

text \<open>
  \<^verbatim>\<open>static void h(int fd){ close(fd); }  void w(int fd){ h(fd); }\<close> with \<open>close\<close> a thin alias.
\<close>

definition catalog_thin :: ApiCatalog where
  "catalog_thin = \<lparr>libc = {''close''}, syscalls = {}, target_names = {''close''},
                   cat_helpers = helpers0, thin_aliases = {''close''},
                   name_to_category = Map.empty\<rparr>"

definition tu_h :: tu where
  "tu_h = [11 \<mapsto> fn_def ''void'' ''h'' 11 [parm ''fd'' 8] [close_call]]"

definition h_call :: cursor where
  "h_call = call_to ''h'' 11 4 16 [use_var PARM_DECL ''fd'' 7]"

definition hop_wrapper :: cursor where
  "hop_wrapper = fn_def ''void'' ''w'' 3 [parm ''fd'' 7] [h_call]"

section \<open>The compile-argument sanitizer (cwrappers/finder/compile\_commands.py)\<close>

text \<open>
  What the sanitizer reads from its host: the environment variable
  \<^verbatim>\<open>WRAPFINDER_ADD_DEFAULTS\<close>, the tokens of a response file (empty when it cannot be read),
  pathlib's \<open>str(Path(p))\<close>, \<open>Path(a) / b\<close>, \<open>Path(p).resolve()\<close> and \<open>Path(p).parent\<close>,
  whether the multiarch include directory exists, and the resource directory found through
  \<^verbatim>\<open>CLANG_RESOURCE_DIR\<close> or the glob over the LLVM installation. Warnings printed on the way are
  not modelled.
\<close>

record host =
  ADD_DEFAULTS :: bool
  response_file :: "string \<Rightarrow> string list"
  path_str :: "string \<Rightarrow> string"
  path_join :: "string \<Rightarrow> string \<Rightarrow> string"
  path_resolve :: "string \<Rightarrow> string"
  path_parent :: "string \<Rightarrow> string"
  multiarch_isdir :: bool
  picked_resource_dir :: "string option"

definition startswith :: "string \<Rightarrow> string \<Rightarrow> bool" where
  "startswith s p = (take (length p) s = p)"

definition endswith :: "string \<Rightarrow> string \<Rightarrow> bool" where
  "endswith s suf = (length suf \<le> length s \<and> drop (length s - length suf) s = suf)"

text \<open>
  Python's \<open>str.lower()\<close>: below U+0100 the upper-case letters are A to Z and U+00C0 to U+00DE
  without U+00D7, and each is mapped to the code point 32 above it, which sets the bit of
  value 32 that all of them have clear.
\<close>

definition lower_char :: "char \<Rightarrow> char" where
  "lower_char c =
     (let n = (of_char c :: nat) in
      if (65 \<le> n \<and> n \<le> 90) \<or> (192 \<le> n \<and> n \<le> 222 \<and> n \<noteq> 215)
      then (case c of Char b0 b1 b2 b3 b4 b5 b6 b7 \<Rightarrow> Char b0 b1 b2 b3 b4 True b6 b7)
      else c)"

definition lower :: "string \<Rightarrow> string" where
  "lower s = map lower_char s"

definition basename :: "string \<Rightarrow> string" where
  "basename tok = rev (takeWhile (\<lambda>c. c \<noteq> CHR ''/'') (rev tok))"

definition split_response_file :: "host \<Rightarrow> string \<Rightarrow> string list" where
  "split_response_file env tok =
     (if \<not> startswith tok ''@'' then [tok] else response_file env (drop 1 tok))"

definition abspath :: "host \<Rightarrow> string \<Rightarrow> string \<Rightarrow> string" where
  "abspath env candidate base_dir =
     (if startswith candidate ''/'' then path_str env candidate
      else path_resolve env (path_join env base_dir candidate))"

definition is_obj_or_lib :: "string \<Rightarrow> bool" where
  "is_obj_or_lib tok =
     list_ex (endswith (lower tok))
       [''.o'', ''.obj'', ''.lo'', ''.a'', ''.lib'', ''.so'', ''.dylib'', ''.bc'', ''.ll'']"

definition is_source_file :: "string \<Rightarrow> bool" where
  "is_source_file tok =
     list_ex (endswith (lower tok)) [''.c'', ''.cc'', ''.cpp'', ''.cxx'', ''.c++'', ''.m'', ''.mm'']"

definition is_warning :: "string \<Rightarrow> bool" where
  "is_warning tok = (if startswith tok ''-Wl,'' then False else startswith tok ''-W'')"

definition COMPILERS :: "string set" where
  "COMPILERS = {''clang'', ''clang-20'', ''clang-19'', ''clang-18'', ''clang-17'', ''clang-16'',
                ''gcc'', ''cc'', ''c99'', ''c11''}"

definition DROP_EXACT :: "string set" where
  "DROP_EXACT = {''-c'', ''-E'', ''-S'', ''-pipe'', ''-static'', ''-shared'', ''-rdynamic'', ''-s'',
                 ''-g'', ''-ggdb'', ''-gsplit-dwarf'', ''-save-temps''}"

definition DROP_PREFIXES :: "string list" where
  "DROP_PREFIXES = [''-Wl,'', ''-Xlinker'', ''-l'', ''-L'', ''-fuse-ld'', ''-T'', ''-u'', ''-flto'',
                    ''-fwhole-program-vtables'', ''-fprofile'', ''-fcoverage'', ''--coverage'',
                    ''-fprofile-'', ''-fsanitize'', ''-fno-sanitize'', ''-fmodules'',
                    ''-fmodule-file='', ''-fmodule-map-file='', ''-fmodules-cache-path'', ''-m'']"

definition PRESERVE_EXACT :: "string set" where
  "PRESERVE_EXACT = {''-pthread'', ''-ansi'', ''-fsigned-char'', ''-pedantic''}"

definition PAIR_FLAGS :: "string set" where
  "PAIR_FLAGS = {''-I'', ''-isystem'', ''-iquote'', ''-idirafter'', ''-include'', ''-imacros'',
                 ''-o'', ''-MF'', ''-MT'', ''-MQ'', ''-MJ'', ''-x'', ''-isysroot'', ''--sysroot'',
                 ''-resource-dir'', ''-target''}"

record san_state =
  filtered :: "string list"
  saw_lang :: bool
  saw_std :: bool
  saw_resource_dir :: bool

definition keep :: "san_state \<Rightarrow> string list \<Rightarrow> san_state" where
  "keep st toks = st\<lparr>filtered := filtered st @ toks\<rparr>"

text \<open>
  One iteration of the token loop on the token \<open>tok\<close> at index \<open>i\<close>: the number of tokens the
  index advances by and the new state. \<open>first\<close> is the test \<open>i == 0\<close>; \<open>rest\<close> holds the
  tokens after \<open>tok\<close>, so the value of a flag is the head of \<open>rest\<close>.
\<close>

definition pair_flag_step :: "host \<Rightarrow> string \<Rightarrow> string \<Rightarrow> string list \<Rightarrow> san_state \<Rightarrow> nat \<times> san_state" where
  "pair_flag_step env entry_dir tok rest st =
     (let has_value = (rest \<noteq> [] \<and> \<not> startswith (hd rest) ''-'') in
      if tok \<in> {''-o'', ''-MF'', ''-MT'', ''-MQ'', ''-MJ''} then (1 + (if has_value then 1 else 0), st)
      else if \<not> has_value then (1, st)
      else
        (let abs_val = (if tok \<in> {''-I'', ''-isystem'', ''-iquote'', ''-idirafter'', ''-include'',
                                   ''-imacros'', ''-isysroot'', ''--sysroot''}
                        then abspath env (hd rest) entry_dir else hd rest);
             st1 = (if tok = ''-x'' then st\<lparr>saw_lang := True\<rparr>
                    else if tok = ''-resource-dir'' then st\<lparr>saw_resource_dir := True\<rparr>
                    else if startswith tok ''-std'' then st\<lparr>saw_std := True\<rparr>
                    else st)
         in (2, keep st1 [tok, abs_val])))"

definition joined_flag_step :: "host \<Rightarrow> string \<Rightarrow> string \<Rightarrow> san_state \<Rightarrow> san_state" where
  "joined_flag_step env entry_dir tok st =
     (if startswith tok ''-std='' then keep (st\<lparr>saw_std := True\<rparr>) [tok]
      else if startswith tok ''-I'' \<and> tok \<noteq> ''-I'' then
        (if drop 2 tok \<noteq> [] then keep st [''-I'', abspath env (drop 2 tok) entry_dir] else st)
      else if startswith tok ''-isystem'' \<and> tok \<noteq> ''-isystem'' then
        (if drop 8 tok \<noteq> [] then keep st [''-isystem'', abspath env (drop 8 tok) entry_dir]
         else st)
      else if startswith tok ''-iquote'' \<and> tok \<noteq> ''-iquote'' then
        (if drop 7 tok \<noteq> [] then keep st [''-iquote'', abspath env (drop 7 tok) entry_dir]
         else st)
      else if startswith tok ''-idirafter'' \<and> tok \<noteq> ''-idirafter'' then
        (if drop 10 tok \<noteq> [] then keep st [''-idirafter'', abspath env (drop 10 tok) entry_dir]
         else st)
      else if startswith tok ''-isysroot='' then
        keep st [''-isysroot='' @ abspath env (drop 10 tok) entry_dir]
      else if startswith tok ''--sysroot='' then
        keep st [''--sysroot='' @ abspath env (drop 10 tok) entry_dir]
      else if startswith tok ''-resource-dir='' then
        keep (st\<lparr>saw_resource_dir := True\<rparr>)
          [''-resource-dir='' @ abspath env (drop 14 tok) entry_dir]
      else if startswith tok ''-D'' then keep st [tok]
      else if tok \<in> PRESERVE_EXACT then keep st [tok]
      else if startswith tok ''-O'' then keep st [tok]
      else st)"

definition sanitize_step ::
    "host \<Rightarrow> string \<Rightarrow> bool \<Rightarrow> string \<Rightarrow> string list \<Rightarrow> san_state \<Rightarrow> nat \<times> san_state" where
  "sanitize_step env entry_dir first tok rest st =
     (if first \<and> \<not> startswith tok ''-'' \<and> basename tok \<in> COMPILERS then (1, st)
      else if tok \<in> DROP_EXACT then (1, st)
      else if is_obj_or_lib tok \<or> is_source_file tok then (1, st)
      else if list_ex (startswith tok) DROP_PREFIXES then (1, st)
      else if is_warning tok then (1, st)
      else if tok \<in> PAIR_FLAGS then pair_flag_step env entry_dir tok rest st
      else (1, joined_flag_step env entry_dir tok st))"

text \<open>The loop \<open>while i < n\<close> over the tokens from index \<open>i\<close> on.\<close>

fun sanitize_loop :: "host \<Rightarrow> string \<Rightarrow> bool \<Rightarrow> string list \<Rightarrow> san_state \<Rightarrow> san_state" where
  "sanitize_loop env entry_dir first [] st = st"
| "sanitize_loop env entry_dir first (tok # rest) st =
     sanitize_loop env entry_dir False
       (drop (fst (sanitize_step env entry_dir first tok rest st) - 1) rest)
       (snd (sanitize_step env entry_dir first tok rest st))"

text \<open>\<open>_include_already_present\<close> of clang\_bootstrap.py.\<close>

fun include_scan :: "string list \<Rightarrow> string \<Rightarrow> bool" where
  "include_scan [] include_path = False"
| "include_scan (a # rest) include_path =
     (if a = ''-I'' then
        (if rest \<noteq> [] \<and> hd rest = include_path then True else include_scan rest include_path)
      else if startswith a ''-I'' \<and> drop 2 a = include_path then True
      else include_scan rest include_path)"

definition include_already_present :: "string list \<Rightarrow> string \<Rightarrow> bool" where
  "include_already_present args include_path =
     (if include_path = [] then False else include_scan args include_path)"

definition INCLUDE_FLAGS :: "string set" where
  "INCLUDE_FLAGS = {''-I'', ''-isystem'', ''-iquote'', ''-idirafter''}"

fun has_sys_include :: "host \<Rightarrow> string list \<Rightarrow> string \<Rightarrow> bool" where
  "has_sys_include env [] path = False"
| "has_sys_include env (t # rest) path =
     (if t \<in> INCLUDE_FLAGS \<and> rest \<noteq> [] \<and> path_resolve env (hd rest) = path_resolve env path
      then True
      else if startswith t ''-I'' \<and> t \<noteq> ''-I'' \<and> path_resolve env (drop 2 t) = path_resolve env path
      then True
      else has_sys_include env rest path)"

fun has_any_project_includes :: "host \<Rightarrow> string list \<Rightarrow> bool" where
  "has_any_project_includes env [] = False"
| "has_any_project_includes env (t # rest) =
     (if t \<in> INCLUDE_FLAGS \<and> rest \<noteq> [] \<and> \<not> startswith (hd rest) ''-''
         \<and> path_resolve env (hd rest) \<notin> {''/usr/include'', ''/usr/include/x86_64-linux-gnu''}
      then True
      else if startswith t ''-I'' \<and> t \<noteq> ''-I''
              \<and> path_resolve env (drop 2 t) \<notin> {''/usr/include'', ''/usr/include/x86_64-linux-gnu''}
      then True
      else has_any_project_includes env rest)"

definition lang_flags :: "string \<Rightarrow> string list" where
  "lang_flags src_path =
     (let sp = lower src_path in
      if endswith sp ''.c'' then [''-x'', ''c'']
      else if list_ex (endswith sp) [''.cc'', ''.cpp'', ''.cxx'', ''.c++''] then [''-x'', ''c++'']
      else if endswith sp ''.m'' then [''-x'', ''objective-c'']
      else if endswith sp ''.mm'' then [''-x'', ''objective-c++'']
      else [''-x'', ''c''])"

definition add_default_includes :: "string list \<Rightarrow> string list \<Rightarrow> string list" where
  "add_default_includes args paths =
     foldl (\<lambda>f pth. if pth \<noteq> [] \<and> \<not> include_already_present f pth then f @ [''-I'', pth] else f)
       args paths"

definition sanitize_clang_args_for_libclang ::
    "host \<Rightarrow> string list \<Rightarrow> string \<Rightarrow> string \<Rightarrow> string list" where
  "sanitize_clang_args_for_libclang env raw_args src_path entry_dir =
     (let tokens = concat (map (split_response_file env) raw_args);
          st = sanitize_loop env entry_dir True tokens
                 \<lparr>filtered = [], saw_lang = False, saw_std = False, saw_resource_dir = False\<rparr>;
          f1 = (if list_ex (\<lambda>a. a = ''-working-directory''
                                 \<or> startswith a ''-working-directory='') (filtered st)
                then filtered st
                else filtered st @ [''-working-directory='' @ path_str env entry_dir]);
          src_dir = path_resolve env (path_parent env src_path);
          ent_dir = path_resolve env entry_dir;
          f2 = (if src_dir \<noteq> ent_dir \<and> \<not> include_already_present f1 src_dir
                then f1 @ [''-I'', src_dir] else f1);
          f3 = (if \<not> has_sys_include env f2 ''/usr/include''
                then f2 @ [''-I'', ''/usr/include''] else f2);
          multiarch = ''/usr/include/x86_64-linux-gnu'';
          f4 = (if multiarch_isdir env \<and> \<not> has_sys_include env f3 multiarch
                then f3 @ [''-I'', multiarch] else f3);
          f5 = (if \<not> saw_resource_dir st then
                  (case picked_resource_dir env of
                     Some picked \<Rightarrow> if picked \<noteq> [] then f4 @ [''-resource-dir='' @ picked] else f4
                   | None \<Rightarrow> f4)
                else f4);
          f6 = (if ADD_DEFAULTS env \<and> \<not> has_any_project_includes env f5
                then add_default_includes f5 [ent_dir, src_dir] else f5)
      in if \<not> saw_lang st then lang_flags src_path @ f6 else f6)"

text \<open>
  A host for running the sanitizer: no symbolic links and paths already normalised, so that
  \<open>resolve\<close> and \<open>str\<close> leave an absolute path as it is; no multiarch directory and no clang
  resource directory installed.
\<close>

definition plain_parent :: "string \<Rightarrow> string" where
  "plain_parent p =
     (let d = rev (dropWhile (\<lambda>c. c \<noteq> CHR ''/'') (rev p))
      in if length d \<le> 1 then d else butlast d)"

definition plain_host :: host where
  "plain_host = \<lparr>ADD_DEFAULTS = False, response_file = (\<lambda>p. []), path_str = (\<lambda>p. p),
                 path_join = (\<lambda>a b. a @ ''/'' @ b), path_resolve = (\<lambda>p. p),
                 path_parent = plain_parent, multiarch_isdir = False,
                 picked_resource_dir = None\<rparr>"

section \<open>Further example inputs\<close>








section \<open>Properties of the per-path counter\<close>

lemma cap_union_good: "cap_union A v \<noteq> {} \<and> (\<forall>x \<in> cap_union A v. x \<le> 2)"
  by (auto simp: cap_union_def)

lemma analyze_stmt_return:
  "kind stmt = RETURN_STMT \<Longrightarrow> analyze_stmt tu T H hops stmt =
     \<lparr>counts = {min (sum_list (map (count_calls_in_expr tu T H hops) (get_children stmt))) 2},
      unknown = False\<rparr>"
  by (simp add: analyze_stmt.simps [of _ _ _ _ stmt] Let_def min_def)

lemma analyze_stmt_if:
  "kind stmt = IF_STMT \<Longrightarrow> analyze_stmt tu T H hops stmt =
     merge_pr (branch_pr tu T H hops (nth_opt (get_children stmt) 1))
              (branch_pr tu T H hops (nth_opt (get_children stmt) 2))"
  by (simp add: analyze_stmt.simps [of _ _ _ _ stmt] Let_def merge_pr_def branch_pr_def)

lemma analyze_stmt_cond:
  "kind stmt = CONDITIONAL_OPERATOR \<Longrightarrow> analyze_stmt tu T H hops stmt =
     merge_pr (branch_pr tu T H hops (nth_opt (get_children stmt) 1))
              (branch_pr tu T H hops (nth_opt (get_children stmt) 2))"
  by (simp add: analyze_stmt.simps [of _ _ _ _ stmt] Let_def merge_pr_def branch_pr_def)

lemma analyze_stmt_loop:
  "kind stmt = FOR_STMT \<or> kind stmt = WHILE_STMT \<or> kind stmt = DO_STMT \<Longrightarrow>
   analyze_stmt tu T H hops stmt =
     (case loop_body (get_children stmt) of
        None \<Rightarrow> \<lparr>counts = {2}, unknown = True\<rparr>
      | Some body \<Rightarrow>
          if \<exists>x \<in> counts (analyze_stmt tu T H 1 body). x \<ge> 2 then \<lparr>counts = {2}, unknown = True\<rparr>
          else \<lparr>counts = counts (analyze_stmt tu T H 1 body) \<union> {0, 1},
                unknown = unknown (analyze_stmt tu T H 1 body)\<rparr>)"
  by (elim disjE) (simp_all add: analyze_stmt.simps [of _ _ _ _ stmt] Let_def split: option.split)

lemma analyze_stmt_compound:
  "kind stmt = COMPOUND_STMT \<Longrightarrow> analyze_stmt tu T H hops stmt =
     (let acc_unknown =
           foldl (\<lambda>au ch.
              let child = analyze_stmt tu T H hops ch
              in (\<Union>v \<in> counts child. cap_union (fst au) v, snd au \<or> unknown child))
             ({0}, False) (get_children stmt)
      in \<lparr>counts = fst acc_unknown, unknown = snd acc_unknown\<rparr>)"
  by (simp add: analyze_stmt.simps [of _ _ _ _ stmt])

lemma analyze_stmt_switch:
  "kind stmt = SWITCH_STMT \<Longrightarrow> analyze_stmt tu T H hops stmt =
     (let acc_pr =
           foldl (\<lambda>acc ch.
              if kind ch = CASE_STMT \<or> kind ch = DEFAULT_STMT then
                merge_pr acc (branch_pr tu T H hops (nth_opt (get_children ch) 1))
              else acc)
             \<lparr>counts = {}, unknown = False\<rparr> (get_children stmt)
         in if counts acc_pr = {} then acc_pr\<lparr>counts := {0}\<rparr> else acc_pr)"
  unfolding branch_pr_def by (simp add: analyze_stmt.simps [of _ _ _ _ stmt])

lemma analyze_stmt_other:
  "kind stmt \<noteq> RETURN_STMT \<Longrightarrow> kind stmt \<noteq> CALL_EXPR \<Longrightarrow> kind stmt \<noteq> IF_STMT \<Longrightarrow>
   kind stmt \<noteq> SWITCH_STMT \<Longrightarrow> kind stmt \<noteq> CONDITIONAL_OPERATOR \<Longrightarrow> kind stmt \<noteq> FOR_STMT \<Longrightarrow>
   kind stmt \<noteq> WHILE_STMT \<Longrightarrow> kind stmt \<noteq> DO_STMT \<Longrightarrow> kind stmt \<noteq> COMPOUND_STMT \<Longrightarrow>
   analyze_stmt tu T H hops stmt =
     foldl (\<lambda>acc_pr ch. merge_pr acc_pr (analyze_stmt tu T H hops ch))
          \<lparr>counts = {0}, unknown = False\<rparr> (get_children stmt)"
  by (simp add: analyze_stmt.simps [of _ _ _ _ stmt])

lemma match_sys_here_nonempty: "match_sys_here s = Some w \<Longrightarrow> w \<noteq> []"
  by (auto simp: match_sys_here_def Let_def split: if_splits)

lemma re_search_sys_nonempty: "re_search_sys s = Some w \<Longrightarrow> w \<noteq> []"
  by (induction s) (auto split: option.splits dest: match_sys_here_nonempty)

lemma takeWhile_word:
  assumes "\<forall>c \<in> set foo. P c" and "post = [] \<or> \<not> P (hd post)"
  shows "takeWhile P (foo @ post) = foo"
proof -
  have "takeWhile P post = []" using assms(2) by (cases post) auto
  then show ?thesis using assms(1) by (simp add: takeWhile_append2)
qed

lemma match_sys_here_iff: "match_sys_here s = Some foo \<longleftrightarrow> begins_with_sys s foo"
proof
  assume m: "match_sys_here s = Some foo"
  define n :: nat where "n = (if take 4 s = ''SYS_'' then 4 else 5)"
  have p: "take n s = ''SYS_'' \<or> take n s = ''__NR_''"
    and w: "foo = takeWhile is_word_char (drop n s)" and ne: "foo \<noteq> []"
    using m by (auto simp: match_sys_here_def Let_def n_def split: if_splits)
  let ?post = "dropWhile is_word_char (drop n s)"
  have "s = take n s @ foo @ ?post" by (simp add: w)
  moreover have "\<forall>c \<in> set foo. is_word_char c" using w by (auto dest: set_takeWhileD)
  moreover have "?post = [] \<or> \<not> is_word_char (hd ?post)"
    by (metis hd_dropWhile)
  ultimately show "begins_with_sys s foo" using p ne unfolding begins_with_sys_def by blast
next
  assume "begins_with_sys s foo"
  then obtain p post where s: "s = p @ foo @ post" and p: "p = ''SYS_'' \<or> p = ''__NR_''"
    and ne: "foo \<noteq> []" and w: "\<forall>c \<in> set foo. is_word_char c"
    and e: "post = [] \<or> \<not> is_word_char (hd post)"
    unfolding begins_with_sys_def by blast
  have t: "takeWhile is_word_char (foo @ post) = foo" by (rule takeWhile_word [OF w e])
  from p show "match_sys_here s = Some foo"
  proof
    assume "p = ''SYS_''"
    then show ?thesis using s t ne by (simp add: match_sys_here_def)
  next
    assume "p = ''__NR_''"
    then show ?thesis using s t ne by (simp add: match_sys_here_def)
  qed
qed

lemma first_sys_name_Nil: "\<not> first_sys_name [] foo"
  by (auto simp: first_sys_name_def begins_with_sys_def)

lemma first_sys_name_here:
  assumes "match_sys_here (c # cs) = Some w"
  shows "first_sys_name (c # cs) foo \<longleftrightarrow> foo = w"
proof
  assume "first_sys_name (c # cs) foo"
  then obtain pre rest where t: "c # cs = pre @ rest" and b: "begins_with_sys rest foo"
    and l: "\<forall>i < length pre. \<forall>g. \<not> begins_with_sys (drop i (c # cs)) g"
    unfolding first_sys_name_def by blast
  have "pre = []"
  proof (rule ccontr)
    assume "pre \<noteq> []"
    then have "\<not> begins_with_sys (drop 0 (c # cs)) w" using l by (cases pre) auto
    then show False using assms by (simp add: match_sys_here_iff)
  qed
  then have "match_sys_here (c # cs) = Some foo" using t b by (simp add: match_sys_here_iff)
  then show "foo = w" using assms by simp
next
  assume "foo = w"
  then have "begins_with_sys (c # cs) foo" using assms by (simp add: match_sys_here_iff)
  then show "first_sys_name (c # cs) foo"
    unfolding first_sys_name_def by (intro exI [of _ "[]"] exI [of _ "c # cs"]) simp
qed

lemma first_sys_name_later:
  assumes "match_sys_here (c # cs) = None"
  shows "first_sys_name (c # cs) foo \<longleftrightarrow> first_sys_name cs foo"
proof
  assume "first_sys_name (c # cs) foo"
  then obtain pre rest where t: "c # cs = pre @ rest" and b: "begins_with_sys rest foo"
    and l: "\<forall>i < length pre. \<forall>g. \<not> begins_with_sys (drop i (c # cs)) g"
    unfolding first_sys_name_def by blast
  have "pre \<noteq> []"
  proof
    assume "pre = []"
    then have "match_sys_here (c # cs) = Some foo" using t b by (simp add: match_sys_here_iff)
    then show False using assms by simp
  qed
  then obtain pre' where pre: "pre = c # pre'" using t by (cases pre) auto
  have "cs = pre' @ rest" using t pre by simp
  moreover have "\<forall>i < length pre'. \<forall>g. \<not> begins_with_sys (drop i cs) g"
  proof (intro allI impI)
    fix i g assume "i < length pre'"
    then have "Suc i < length pre" using pre by simp
    then have "\<not> begins_with_sys (drop (Suc i) (c # cs)) g" using l by blast
    then show "\<not> begins_with_sys (drop i cs) g" by simp
  qed
  ultimately show "first_sys_name cs foo" using b unfolding first_sys_name_def by blast
next
  assume "first_sys_name cs foo"
  then obtain pre rest where t: "cs = pre @ rest" and b: "begins_with_sys rest foo"
    and l: "\<forall>i < length pre. \<forall>g. \<not> begins_with_sys (drop i cs) g"
    unfolding first_sys_name_def by blast
  have "c # cs = (c # pre) @ rest" using t by simp
  moreover have "\<forall>i < length (c # pre). \<forall>g. \<not> begins_with_sys (drop i (c # cs)) g"
  proof (intro allI impI)
    fix i g assume i: "i < length (c # pre)"
    show "\<not> begins_with_sys (drop i (c # cs)) g"
    proof (cases i)
      case 0
      then show ?thesis using assms by (simp add: match_sys_here_iff [symmetric])
    next
      case (Suc j)
      then show ?thesis using i l by simp
    qed
  qed
  ultimately show "first_sys_name (c # cs) foo" using b unfolding first_sys_name_def by blast
qed

lemma re_search_sys_iff: "re_search_sys s = Some foo \<longleftrightarrow> first_sys_name s foo"
proof (induction s)
  case Nil
  then show ?case by (simp add: first_sys_name_Nil)
next
  case (Cons c cs)
  show ?case
  proof (cases "match_sys_here (c # cs)")
    case None
    then show ?thesis using Cons first_sys_name_later [OF None] by simp
  next
    case (Some w)
    then show ?thesis using first_sys_name_here [OF Some] by auto
  qed
qed

lemma syscall_hits_search:
  "syscall_hits call T =
     (callee_name call = ''syscall'' \<and> length (get_children call) \<ge> 2 \<and>
      (case re_search_sys (concat (tokens (attrs (get_children call ! 1)))) of
         None \<Rightarrow> False | Some foo \<Rightarrow> foo \<in> T))"
  by (auto simp: syscall_hits_def re_search_sys_iff [symmetric] split: option.splits)

lemma mapped_in_syscall_hits:
  "mapped_in (resolve_syscall_indirection call) T = syscall_hits call T"
  by (auto simp: mapped_in_def resolve_syscall_indirection_def syscall_hits_search Let_def
        SYSNR_TO_NAME_def split: option.splits dest: re_search_sys_nonempty)

lemma analyze_stmt_call:
  "kind stmt = CALL_EXPR \<Longrightarrow> analyze_stmt tu T H hops stmt =
     \<lparr>counts = {call_contribution tu T H hops stmt}, unknown = False\<rparr>"
  by (simp add: analyze_stmt.simps [of _ _ _ _ stmt] Let_def call_contribution_def
        is_helper_call_def mapped_in_syscall_hits reaches_target_within_def)

lemma call_contribution_le: "call_contribution tu T H hops c \<le> 1"
  by (simp add: call_contribution_def)

lemma good_merge: "good a \<Longrightarrow> good b \<Longrightarrow> good (merge_pr a b)"
  by (auto simp: good_def merge_pr_def)

lemma compound_fold_good:
  assumes "\<forall>ch \<in> set cs. good (f ch)" and "fst au \<noteq> {}" and "\<forall>x \<in> fst au. x \<le> 2"
  shows "good \<lparr>counts = fst (foldl (\<lambda>au ch. let child = f ch
              in (\<Union>v \<in> counts child. cap_union (fst au) v, snd au \<or> unknown child)) au cs),
          unknown = u\<rparr>"
  using assms
proof (induction cs arbitrary: au)
  case Nil
  then show ?case by (simp add: good_def)
next
  case (Cons c cs)
  let ?au = "(\<Union>v \<in> counts (f c). cap_union (fst au) v, snd au \<or> unknown (f c))"
  have g: "good (f c)" using Cons.prems by simp
  have 1: "fst ?au \<noteq> {}" using g cap_union_good by (auto simp: good_def)
  have 2: "\<forall>x \<in> fst ?au. x \<le> 2" using cap_union_good by auto
  have "\<forall>ch \<in> set cs. good (f ch)" using Cons.prems by simp
  from Cons.IH [OF this 1 2] show ?case by (simp add: Let_def)
qed

lemma merge_fold_counts:
  "counts (foldl (\<lambda>acc ch. if p ch then merge_pr acc (g ch) else acc) acc cs)
     = counts acc \<union> (\<Union>ch \<in> set (filter p cs). counts (g ch))"
  by (induction cs arbitrary: acc) (auto simp: merge_pr_def)

lemma merge_fold_unknown:
  "unknown (foldl (\<lambda>acc ch. if p ch then merge_pr acc (g ch) else acc) acc cs)
     = (unknown acc \<or> (\<exists>ch \<in> set (filter p cs). unknown (g ch)))"
  by (induction cs arbitrary: acc) (auto simp: merge_pr_def)

lemma merge_all_counts:
  "counts (foldl (\<lambda>acc ch. merge_pr acc (g ch)) acc cs)
     = counts acc \<union> (\<Union>ch \<in> set cs. counts (g ch))"
  by (induction cs arbitrary: acc) (auto simp: merge_pr_def)

lemma merge_all_unknown:
  "unknown (foldl (\<lambda>acc ch. merge_pr acc (g ch)) acc cs)
     = (unknown acc \<or> (\<exists>ch \<in> set cs. unknown (g ch)))"
  by (induction cs arbitrary: acc) (auto simp: merge_pr_def)

lemma analyze_stmt_good: "good (analyze_stmt tu T H hops stmt)"
proof (induction tu T H hops stmt rule: analyze_stmt.induct)
  case (1 tu T H hops stmt)
  have dflt: "good \<lparr>counts = {0}, unknown = False\<rparr>" by (simp add: good_def)
  consider (ret) "kind stmt = RETURN_STMT" | (call) "kind stmt = CALL_EXPR"
    | (ifs) "kind stmt = IF_STMT" | (sw) "kind stmt = SWITCH_STMT"
    | (cond) "kind stmt = CONDITIONAL_OPERATOR"
    | (loop) "kind stmt = FOR_STMT \<or> kind stmt = WHILE_STMT \<or> kind stmt = DO_STMT"
    | (comp) "kind stmt = COMPOUND_STMT"
    | (other) "kind stmt \<noteq> RETURN_STMT" "kind stmt \<noteq> CALL_EXPR" "kind stmt \<noteq> IF_STMT"
        "kind stmt \<noteq> SWITCH_STMT" "kind stmt \<noteq> CONDITIONAL_OPERATOR" "kind stmt \<noteq> FOR_STMT"
        "kind stmt \<noteq> WHILE_STMT" "kind stmt \<noteq> DO_STMT" "kind stmt \<noteq> COMPOUND_STMT"
    by blast
  then show ?case
  proof cases
    case ret
    then show ?thesis by (simp add: analyze_stmt_return good_def)
  next
    case call
    then show ?thesis
      using call_contribution_le [of tu T H hops stmt] by (simp add: analyze_stmt_call good_def)
  next
    case ifs
    have "good (branch_pr tu T H hops (nth_opt (get_children stmt) 1))"
      using 1(1) ifs dflt by (simp add: branch_pr_def split: option.split)
    moreover have "good (branch_pr tu T H hops (nth_opt (get_children stmt) 2))"
      using 1(2) [OF _ _ ifs refl] ifs dflt by (simp add: branch_pr_def split: option.split)
    ultimately show ?thesis using ifs by (simp add: analyze_stmt_if good_merge)
  next
    case sw
    let ?p = "\<lambda>ch. kind ch = CASE_STMT \<or> kind ch = DEFAULT_STMT"
    let ?g = "\<lambda>ch. branch_pr tu T H hops (nth_opt (get_children ch) 1)"
    have g: "good (?g ch)" if "ch \<in> set (get_children stmt)" "?p ch" for ch
      using 1(3) [OF _ _ _ sw that] sw dflt by (simp add: branch_pr_def split: option.split)
    show ?thesis
      using sw g by (auto simp: analyze_stmt_switch Let_def good_def merge_fold_counts)
  next
    case cond
    have "good (branch_pr tu T H hops (nth_opt (get_children stmt) 1))"
      using 1(4) cond dflt by (simp add: branch_pr_def split: option.split)
    moreover have "good (branch_pr tu T H hops (nth_opt (get_children stmt) 2))"
      using 1(5) [OF _ _ _ _ cond refl] cond dflt by (simp add: branch_pr_def split: option.split)
    ultimately show ?thesis using cond by (simp add: analyze_stmt_cond good_merge)
  next
    case loop
    have ns: "kind stmt \<noteq> RETURN_STMT" "kind stmt \<noteq> CALL_EXPR" "kind stmt \<noteq> IF_STMT"
      "kind stmt \<noteq> SWITCH_STMT" "kind stmt \<noteq> CONDITIONAL_OPERATOR"
      using loop by auto
    show ?thesis
    proof (cases "loop_body (get_children stmt)")
      case None
      then show ?thesis using loop by (simp add: analyze_stmt_loop good_def)
    next
      case (Some body)
      have "good (analyze_stmt tu T H 1 body)" using 1(6) [OF ns loop Some] .
      then show ?thesis using loop Some
        by (auto simp: analyze_stmt_loop good_def)
    qed
  next
    case comp
    have "\<forall>ch \<in> set (get_children stmt). good (analyze_stmt tu T H hops ch)"
      using 1(7) comp by simp
    from compound_fold_good [OF this, of "({0}, False)"] show ?thesis
      using comp by (simp add: analyze_stmt_compound Let_def)
  next
    case other
    have g: "\<forall>ch \<in> set (get_children stmt). good (analyze_stmt tu T H hops ch)"
      using 1(8) other by simp
    show ?thesis using g other by (auto simp: analyze_stmt_other good_def merge_all_counts)
  qed
qed

text \<open>
  C4. For every statement, target set, helper configuration and hop bound, the counts of the
  result of \<open>analyze_stmt\<close> are a non-empty subset of \<open>{0, 1, 2}\<close>, so their maximum is at
  most 2, whether or not the result is unknown.
\<close>

theorem analyze_stmt_counts_saturated:
  "counts (analyze_stmt tu T H hops stmt) \<noteq> {}
   \<and> counts (analyze_stmt tu T H hops stmt) \<subseteq> {0, 1, 2}
   \<and> Max (counts (analyze_stmt tu T H hops stmt)) \<le> 2"
proof -
  have g: "good (analyze_stmt tu T H hops stmt)" by (rule analyze_stmt_good)
  have sub: "counts (analyze_stmt tu T H hops stmt) \<subseteq> {0, 1, 2}"
  proof
    fix x assume "x \<in> counts (analyze_stmt tu T H hops stmt)"
    then have "x \<le> 2" using g by (simp add: good_def)
    then show "x \<in> {0, 1, 2}" by auto
  qed
  then have "finite (counts (analyze_stmt tu T H hops stmt))" by (rule finite_subset) simp
  then show ?thesis using g sub by (simp add: good_def)
qed

lemmas ex_defs = attrs0_def ast_def at_loc_def fn_ref_def var_ref_def use_var_def call_to_def
  parm_def fn_def_def helpers0_def catalog0_def
















lemmas analyze_stmt_kinds = analyze_stmt_return analyze_stmt_call analyze_stmt_if
  analyze_stmt_switch analyze_stmt_cond analyze_stmt_loop analyze_stmt_compound analyze_stmt_other

lemmas call_defs = callee_name_def callee_definition_def opt_or_def str_or_def any_match_def
  is_helper_call_def call_contribution_def syscall_hits_search reaches_target_within_def
  call_hits_target_via_one_hop_def decl_children_def first_compound_def









text \<open>
  C2, as amended. A for/while/do statement without a compound-statement child has the result
  \<open>{2}\<close> with unknown set. Otherwise, with \<open>B\<close> the result of its last compound-statement
  child under the same targets and helpers: if some count of \<open>B\<close> is at least 2 the result is
  \<open>{2}\<close> with unknown set, else it is \<open>B \<union> {0, 1}\<close> with the unknown flag of \<open>B\<close>.
\<close>

theorem loop_result_from_body:
  assumes "kind stmt = FOR_STMT \<or> kind stmt = WHILE_STMT \<or> kind stmt = DO_STMT"
  shows "(loop_body (get_children stmt) = None \<longrightarrow>
            analyze_stmt tu T H hops stmt = \<lparr>counts = {2}, unknown = True\<rparr>)
       \<and> (\<forall>body. loop_body (get_children stmt) = Some body \<longrightarrow>
            (\<exists>h. let B = analyze_stmt tu T H h body in
                 analyze_stmt tu T H hops stmt =
                   (if \<exists>x \<in> counts B. x \<ge> 2 then \<lparr>counts = {2}, unknown = True\<rparr>
                    else \<lparr>counts = counts B \<union> {0, 1}, unknown = unknown B\<rparr>)))"
proof (intro conjI impI allI)
  assume "loop_body (get_children stmt) = None"
  then show "analyze_stmt tu T H hops stmt = \<lparr>counts = {2}, unknown = True\<rparr>"
    using assms by (simp add: analyze_stmt_loop)
next
  fix body assume "loop_body (get_children stmt) = Some body"
  then have "let B = analyze_stmt tu T H 1 body in
                 analyze_stmt tu T H hops stmt =
                   (if \<exists>x \<in> counts B. x \<ge> 2 then \<lparr>counts = {2}, unknown = True\<rparr>
                    else \<lparr>counts = counts B \<union> {0, 1}, unknown = unknown B\<rparr>)"
    using assms by (simp add: analyze_stmt_loop Let_def)
  then show "\<exists>h. let B = analyze_stmt tu T H h body in
                 analyze_stmt tu T H hops stmt =
                   (if \<exists>x \<in> counts B. x \<ge> 2 then \<lparr>counts = {2}, unknown = True\<rparr>
                    else \<lparr>counts = counts B \<union> {0, 1}, unknown = unknown B\<rparr>)" ..
qed

text \<open>
  C2 as stated fails on \<^verbatim>\<open>while (fd) close(fd);\<close>: the body is a call with the result
  \<open>{1}\<close>, the condition has the result \<open>{0}\<close>, and the loop has \<open>{2}\<close> with unknown set,
  where the claim gives \<open>{0, 1}\<close> with unknown clear.
\<close>

theorem loop_without_braces_counterexample:
  "kind while_bare = WHILE_STMT
   \<and> get_children while_bare = [use_var PARM_DECL ''fd'' 7, close_call]
   \<and> analyze_stmt Map.empty {''close''} helpers0 2 close_call = \<lparr>counts = {1}, unknown = False\<rparr>
   \<and> analyze_stmt Map.empty {''close''} helpers0 2 (use_var PARM_DECL ''fd'' 7)
        = \<lparr>counts = {0}, unknown = False\<rparr>
   \<and> analyze_stmt Map.empty {''close''} helpers0 2 while_bare = \<lparr>counts = {2}, unknown = True\<rparr>
   \<and> analyze_stmt Map.empty {''close''} helpers0 2 while_bare
        \<noteq> \<lparr>counts = counts (analyze_stmt Map.empty {''close''} helpers0 2 close_call) \<union> {0, 1},
            unknown = unknown (analyze_stmt Map.empty {''close''} helpers0 2 close_call)\<rparr>"
  by (simp add: while_bare_def close_call_def ex_defs analyze_stmt_kinds call_defs loop_body_def
        merge_pr_def)

theorem loop_result_from_body_witness:
  "(kind while_braced = FOR_STMT \<or> kind while_braced = WHILE_STMT \<or> kind while_braced = DO_STMT)
   \<and> loop_body (get_children while_braced) = Some (ast COMPOUND_STMT [close_call])
   \<and> analyze_stmt Map.empty {''close''} helpers0 2 while_braced
        = \<lparr>counts = {0, 1}, unknown = False\<rparr>"
proof -
  have k: "kind while_braced = FOR_STMT \<or> kind while_braced = WHILE_STMT
           \<or> kind while_braced = DO_STMT"
    by (simp add: while_braced_def ast_def)
  have b: "loop_body (get_children while_braced) = Some (ast COMPOUND_STMT [close_call])"
    by (simp add: while_braced_def close_call_def ast_def loop_body_def)
  have B: "analyze_stmt Map.empty {''close''} helpers0 h (ast COMPOUND_STMT [close_call])
            = \<lparr>counts = {1}, unknown = False\<rparr>" for h
    by (simp add: close_call_def ex_defs analyze_stmt_kinds call_defs cap_union_def)
  from loop_result_from_body [OF k, of Map.empty "{''close''}" helpers0 2] b
  show ?thesis using k B by (auto simp: Let_def)
qed

section \<open>Properties of the strict-plus decision\<close>

text \<open>
  C1. The strict-plus analyzer rejects a function without a body with the reason no-body.
  Otherwise it runs the per-path counter on the body with hop bound 2 and rejects with
  unknown-control-flow when the result is unknown; otherwise, when 0 is among the counts and
  the early-guard predicate fails, it rejects with the reason path-counts= followed by the
  sorted list of counts. All three verdicts have keep false, no hits and no evidence.
\<close>

theorem strict_plus_early_rejections:
  "(function_body_cursor f = None \<longrightarrow>
      analyze_wrapper_strict_plus tu f catalog pol
        = (False, False, 0, ''no-body'', [], None, False, [], False, False, []))
   \<and> (\<forall>body. function_body_cursor f = Some body \<longrightarrow>
        (let pr = analyze_stmt tu (target_names catalog) (cat_helpers catalog) 2 body in
         (unknown pr \<longrightarrow>
            analyze_wrapper_strict_plus tu f catalog pol
              = (False, False, 0, ''unknown-control-flow'', [], None, False, [], False, False, []))
         \<and> (\<not> unknown pr \<and> 0 \<in> counts pr \<and> \<not> has_early_guard_return f (cat_helpers catalog) \<longrightarrow>
            analyze_wrapper_strict_plus tu f catalog pol
              = (False, False, 0, ''path-counts='' @ str_nat_list (sorted_list_of_set (counts pr)),
                 [], None, False, [], False, False, []))))"
  by (simp add: analyze_wrapper_strict_plus_def Let_def)

lemmas fn_defs = function_body_cursor_def has_early_guard_return_def
  branch_has_immediate_return_def nth_opt_def first_compound_def

lemma sorted_01: "sorted_list_of_set {0, Suc 0} = [0, Suc 0]"
proof -
  have "sorted_list_of_set (set [0, Suc 0]) = [0, Suc 0]"
    unfolding sorted_list_of_set_sort_remdups by simp
  then show ?thesis by simp
qed

lemma sorted_single: "sorted_list_of_set {x} = [x]"
  by simp


lemma str_nat_digits: "str_nat 0 = ''0''" "str_nat (Suc 0) = ''1''" "str_nat 2 = ''2''"
  by (simp_all add: str_nat.simps)

lemma declared_only_body: "function_body_cursor declared_only = None"
    by (simp add: declared_only_def ex_defs fn_defs)
lemma looping_wrapper_body: "function_body_cursor looping_wrapper = Some (ast COMPOUND_STMT [while_bare])"
    by (simp add: looping_wrapper_def ex_defs fn_defs)
lemma conditional_wrapper_body: "function_body_cursor conditional_wrapper
      = Some (ast COMPOUND_STMT [ast IF_STMT [use_var PARM_DECL ''fd'' 7, close_call],
                ast RETURN_STMT [ast INTEGER_LITERAL []]])"
    by (simp add: conditional_wrapper_def ex_defs fn_defs)
lemma looping_wrapper_paths: "analyze_stmt Map.empty {''close''} helpers0 2 (ast COMPOUND_STMT [while_bare])
          = \<lparr>counts = {2}, unknown = True\<rparr>"
    by (simp add: while_bare_def close_call_def ex_defs analyze_stmt_kinds call_defs loop_body_def
        merge_pr_def cap_union_def)
lemma conditional_wrapper_paths: "analyze_stmt Map.empty {''close''} helpers0 2
            (ast COMPOUND_STMT [ast IF_STMT [use_var PARM_DECL ''fd'' 7, close_call],
                ast RETURN_STMT [ast INTEGER_LITERAL []]])
          = \<lparr>counts = {0, 1}, unknown = False\<rparr>"
    by (auto simp add: close_call_def ex_defs analyze_stmt_kinds call_defs 
        merge_pr_def cap_union_def branch_pr_def nth_opt_def)
lemma conditional_wrapper_no_guard: "\<not> has_early_guard_return conditional_wrapper helpers0"
    by (simp add: conditional_wrapper_def close_call_def ex_defs fn_defs first_compound_def)


lemma catalog0_fields: "target_names catalog0 = {''close''}" "cat_helpers catalog0 = helpers0"
  by (simp_all add: catalog0_def)

theorem strict_plus_early_rejections_witness:
  "function_body_cursor declared_only = None
   \<and> analyze_wrapper_strict_plus Map.empty declared_only catalog0 ''default''
       = (False, False, 0, ''no-body'', [], None, False, [], False, False, [])
   \<and> function_body_cursor looping_wrapper = Some (ast COMPOUND_STMT [while_bare])
   \<and> unknown (analyze_stmt Map.empty {''close''} helpers0 2 (ast COMPOUND_STMT [while_bare]))
   \<and> analyze_wrapper_strict_plus Map.empty looping_wrapper catalog0 ''default''
       = (False, False, 0, ''unknown-control-flow'', [], None, False, [], False, False, [])
   \<and> \<not> has_early_guard_return conditional_wrapper helpers0
   \<and> analyze_wrapper_strict_plus Map.empty conditional_wrapper catalog0 ''default''
       = (False, False, 0, ''path-counts=[0, 1]'', [], None, False, [], False, False, [])"
  using strict_plus_early_rejections [of declared_only Map.empty catalog0 "''default''"]
        strict_plus_early_rejections [of looping_wrapper Map.empty catalog0 "''default''"]
        strict_plus_early_rejections [of conditional_wrapper Map.empty catalog0 "''default''"]
  by (simp add: declared_only_body looping_wrapper_body conditional_wrapper_body looping_wrapper_paths conditional_wrapper_paths conditional_wrapper_no_guard catalog0_fields sorted_01 str_nat_list_def str_nat_digits)

lemma guarded_wrapper_body: "function_body_cursor guarded_wrapper
      = Some (ast COMPOUND_STMT [guard_if,
                ast RETURN_STMT [call_to ''close'' 9 3 46 [use_var PARM_DECL ''fd'' 7]]])"
    by (simp add: guarded_wrapper_def ex_defs fn_defs)

lemma guarded_wrapper_paths: "analyze_stmt Map.empty {''close''} helpers0 2
            (ast COMPOUND_STMT [guard_if,
                ast RETURN_STMT [call_to ''close'' 9 3 46 [use_var PARM_DECL ''fd'' 7]]])
          = \<lparr>counts = {0}, unknown = False\<rparr>"
    by (simp add: guard_if_def ex_defs analyze_stmt_kinds call_defs 
        merge_pr_def cap_union_def branch_pr_def nth_opt_def)

text \<open>
  C5. On \<^verbatim>\<open>int w(int fd){ if(fd<0) return -1; return close(fd); }\<close> the early-guard test
  fails: the then-branch is the return statement itself, and the test looks for a return
  among the children of the branch. With 0 among the path counts, strict-plus rejects.
\<close>

theorem guarded_wrapper_rejected:
  "has_early_guard_return guarded_wrapper helpers0 = False
   \<and> analyze_wrapper_strict_plus Map.empty guarded_wrapper catalog0 ''default''
       = (False, False, 0, ''path-counts=[0]'', [], None, False, [], False, False, [])"
proof -
  have g: "has_early_guard_return guarded_wrapper helpers0 = False"
    by (simp add: guarded_wrapper_def guard_if_def ex_defs fn_defs)
  show ?thesis
    using g by (simp add: analyze_wrapper_strict_plus_def guarded_wrapper_body guarded_wrapper_paths catalog0_fields Let_def
        str_nat_list_def str_nat_digits)
qed

section \<open>Properties of the relaxed decision, provenance and the rows\<close>

lemmas v_defs = v_keep_def v_per_path_single_def v_total_hits_def v_reason_def v_hit_locs_def
  v_api_name_def v_derived_from_params_def v_derivation_trace_def v_pair_used_def
  v_via_helper_hop_def v_ignored_helpers_def

lemma resolved_hits_empty:
  "resolved_hits tu catalog hits = []
   \<longleftrightarrow> (\<forall>hit \<in> set hits. \<not> truthy (resolve_target_name_for_call tu (fst hit) catalog))"
  by (induction hits) (auto simp: resolved_hits_def Let_def)

text \<open>
  C7. For a function with a body, the relaxed analyzer keeps the function exactly when the
  per-path counter, run with hop bound 2, yields some count above 0 and at least one collected
  call resolves to a (non-empty) target name; an unknown result does not reject. On acceptance
  per\_path\_single is true exactly when the counts are within \<open>{0, 1}\<close>,
  derived\_from\_params is true with an empty trace, pair\_used and via\_helper\_hop are false
  and the reason is ok.
\<close>

theorem relaxed_acceptance:
  assumes "function_body_cursor f = Some body"
  shows "(v_keep (analyze_wrapper_relaxed tu f catalog) \<longleftrightarrow>
            (\<exists>c \<in> counts (analyze_stmt tu (target_names catalog) (cat_helpers catalog) 2 body). c > 0)
            \<and> (\<exists>hit \<in> set (collect_target_calls tu (target_names catalog) f).
                  truthy (resolve_target_name_for_call tu (fst hit) catalog)))
       \<and> (v_keep (analyze_wrapper_relaxed tu f catalog) \<longrightarrow>
            v_per_path_single (analyze_wrapper_relaxed tu f catalog)
              = (counts (analyze_stmt tu (target_names catalog) (cat_helpers catalog) 2 body)
                   \<subseteq> {0, 1})
            \<and> v_derived_from_params (analyze_wrapper_relaxed tu f catalog)
            \<and> v_derivation_trace (analyze_wrapper_relaxed tu f catalog) = []
            \<and> \<not> v_pair_used (analyze_wrapper_relaxed tu f catalog)
            \<and> \<not> v_via_helper_hop (analyze_wrapper_relaxed tu f catalog)
            \<and> v_reason (analyze_wrapper_relaxed tu f catalog) = ''ok'')"
proof -
  let ?pr = "analyze_stmt tu (target_names catalog) (cat_helpers catalog) 2 body"
  let ?rs = "resolved_hits tu catalog (collect_target_calls tu (target_names catalog) f)"
  have v: "analyze_wrapper_relaxed tu f catalog =
     (if \<not> (\<exists>c \<in> counts ?pr. c > 0) then
        (False, False, 0, ''path-counts='' @ str_nat_list (sorted_list_of_set (counts ?pr)),
         [], None, False, [], False, False, [])
      else if ?rs = [] then
        (False, False, 0, ''no-calls'', [], None, False, [], False, False, [])
      else (True, counts ?pr \<subseteq> {0, 1}, length ?rs, ''ok'', map snd ?rs, Some (hd (map fst ?rs)),
            True, [], False, False, []))"
    using assms by (simp add: analyze_wrapper_relaxed_def Let_def)
  show ?thesis
    unfolding v using resolved_hits_empty [of tu catalog "collect_target_calls tu (target_names catalog) f"]
    by (simp add: v_defs)
qed

lemma no_args_fold:
  "\<forall>c \<in> set calls. extract_call_args c = [] \<Longrightarrow>
   foldl (\<lambda>ok_trace call. foldl g ok_trace (enumerate 0 (extract_call_args call))) acc calls = acc"
  by (induction calls arbitrary: acc) simp_all

lemma provenance_no_args:
  assumes "function_body_cursor f = Some body" and "\<forall>c \<in> set calls. extract_call_args c = []"
  shows "check_arguments_provenance f calls H = (True, [])"
  using assms no_args_fold [OF assms(2)]
  by (simp add: check_arguments_provenance_def Let_def)

lemma thin_alias_reject_not_kept: "thin_alias_reject catalog pol w d = Some v \<Longrightarrow> \<not> v_keep v"
  by (auto simp: thin_alias_reject_def Let_def v_defs split: if_splits)

lemma strict_plus_decide_kept:
  assumes "v_keep (strict_plus_decide tu f catalog pol max_pos guard_ok w)"
  shows "v_derived_from_params (strict_plus_decide tu f catalog pol max_pos guard_ok w)
         = fst (check_arguments_provenance f
                 (map fst (collect_target_calls tu (target_names catalog) f)) (cat_helpers catalog))"
  using assms thin_alias_reject_not_kept [of catalog pol w False]
  by (auto simp: strict_plus_decide_def Let_def v_defs split: if_splits option.splits)

lemma strict_plus_cases:
  "(\<not> v_keep (analyze_wrapper_strict_plus tu f catalog pol)
      \<and> v_api_name (analyze_wrapper_strict_plus tu f catalog pol) = None
      \<and> \<not> v_via_helper_hop (analyze_wrapper_strict_plus tu f catalog pol))
   \<or> (\<exists>body max_pos guard_ok w. function_body_cursor f = Some body
        \<and> analyze_wrapper_strict_plus tu f catalog pol
            = strict_plus_decide tu f catalog pol max_pos guard_ok w)"
proof (cases "function_body_cursor f")
  case None
  then show ?thesis by (simp add: analyze_wrapper_strict_plus_def v_defs)
next
  case (Some body)
  let ?pr = "analyze_stmt tu (target_names catalog) (cat_helpers catalog) 2 body"
  show ?thesis
  proof (cases "unknown ?pr \<or> (0 \<in> counts ?pr
                  \<and> \<not> has_early_guard_return f (cat_helpers catalog))")
    case True
    then show ?thesis using Some
      by (auto simp: analyze_wrapper_strict_plus_def Let_def v_defs)
  next
    case False
    then have "\<exists>max_pos guard_ok w. analyze_wrapper_strict_plus tu f catalog pol
            = strict_plus_decide tu f catalog pol max_pos guard_ok w"
      using Some by (simp add: analyze_wrapper_strict_plus_def Let_def) blast
    then show ?thesis using Some by blast
  qed
qed

lemma strict_plus_kept:
  assumes "v_keep (analyze_wrapper_strict_plus tu f catalog pol)"
  shows "function_body_cursor f \<noteq> None
       \<and> v_derived_from_params (analyze_wrapper_strict_plus tu f catalog pol)
         = fst (check_arguments_provenance f
                 (map fst (collect_target_calls tu (target_names catalog) f)) (cat_helpers catalog))"
proof -
  from strict_plus_cases [of tu f catalog pol] assms
  obtain body max_pos guard_ok w where b: "function_body_cursor f = Some body"
    and e: "analyze_wrapper_strict_plus tu f catalog pol
            = strict_plus_decide tu f catalog pol max_pos guard_ok w"
    by blast
  show ?thesis using assms b strict_plus_decide_kept [of tu f catalog pol max_pos guard_ok w]
    unfolding e by simp
qed

text \<open>
  C10. For a function with a body, \<open>check_arguments_provenance\<close> returns ok = true with an
  empty trace when every counted call site has no argument, in particular when there is no
  call site at all. Hence a wrapper that strict-plus accepts and whose target calls take no
  arguments is reported with derived\_from\_params = true.
\<close>

theorem provenance_vacuous_without_arguments:
  "(function_body_cursor f \<noteq> None \<and> (\<forall>c \<in> set calls. extract_call_args c = [])
      \<longrightarrow> check_arguments_provenance f calls H = (True, []))
   \<and> (v_keep (analyze_wrapper_strict_plus tu f catalog pol)
       \<and> (\<forall>hit \<in> set (collect_target_calls tu (target_names catalog) f).
             extract_call_args (fst hit) = [])
      \<longrightarrow> v_derived_from_params (analyze_wrapper_strict_plus tu f catalog pol))"
proof (intro conjI impI)
  assume "function_body_cursor f \<noteq> None \<and> (\<forall>c \<in> set calls. extract_call_args c = [])"
  then show "check_arguments_provenance f calls H = (True, [])"
    using provenance_no_args [of f _ calls H] by auto
next
  assume a: "v_keep (analyze_wrapper_strict_plus tu f catalog pol)
       \<and> (\<forall>hit \<in> set (collect_target_calls tu (target_names catalog) f).
             extract_call_args (fst hit) = [])"
  then obtain body where b: "function_body_cursor f = Some body"
    using strict_plus_kept [of tu f catalog pol] by auto
  have "\<forall>c \<in> set (map fst (collect_target_calls tu (target_names catalog) f)).
          extract_call_args c = []"
    using a by auto
  from provenance_no_args [OF b this, of "cat_helpers catalog"]
  show "v_derived_from_params (analyze_wrapper_strict_plus tu f catalog pol)"
    using a strict_plus_kept [of tu f catalog pol] by simp
qed


lemma relaxed_no_hop: "\<not> v_via_helper_hop (analyze_wrapper_relaxed tu f catalog)"
  by (simp add: analyze_wrapper_relaxed_def Let_def v_defs split: option.split)

lemma strict_plus_decide_thin:
  assumes "pol = ''default'' \<or> pol = ''direct-only''"
    and "v_via_helper_hop (strict_plus_decide tu f catalog pol max_pos guard_ok w)"
    and "v_api_name (strict_plus_decide tu f catalog pol max_pos guard_ok w) = Some a"
    and "a \<noteq> []" and "a \<in> thin_aliases catalog"
  shows "v_reason (strict_plus_decide tu f catalog pol max_pos guard_ok w)
           = ''reject: thin-alias-via-helper''
         \<and> \<not> v_keep (strict_plus_decide tu f catalog pol max_pos guard_ok w)"
  using assms
  by (auto simp: strict_plus_decide_def thin_alias_reject_def Let_def v_defs str_or_def
        split: if_splits)

lemma strict_plus_thin:
  assumes "pol = ''default'' \<or> pol = ''direct-only''"
    and "v_via_helper_hop (analyze_wrapper_strict_plus tu f catalog pol)"
    and "v_api_name (analyze_wrapper_strict_plus tu f catalog pol) = Some a"
    and "a \<noteq> []" and "a \<in> thin_aliases catalog"
  shows "v_reason (analyze_wrapper_strict_plus tu f catalog pol) = ''reject: thin-alias-via-helper''
         \<and> \<not> v_keep (analyze_wrapper_strict_plus tu f catalog pol)"
proof -
  from strict_plus_cases [of tu f catalog pol] assms(2)
  obtain max_pos guard_ok w where e: "analyze_wrapper_strict_plus tu f catalog pol
            = strict_plus_decide tu f catalog pol max_pos guard_ok w"
    by blast
  show ?thesis using assms strict_plus_decide_thin [of pol tu f catalog max_pos guard_ok w a]
    unfolding e by simp
qed

lemma add_row_rows:
  assumes "r \<in> set (snd (foldl (add_row tu mode catalog pol src) acc cs))"
  shows "r \<in> set (snd acc) \<or> (\<exists>c key. function_row tu mode catalog pol src c = Some (key, r))"
  using assms
proof (induction cs arbitrary: acc)
  case Nil
  then show ?case by simp
next
  case (Cons c cs)
  from Cons.IH [OF Cons.prems [simplified]]
  show ?case
    by (auto simp: add_row_def split: option.splits if_splits)
qed

lemma run_finder_rows_aux:
  assumes "r \<in> set (snd (foldl (\<lambda>acc unit.
            foldl (add_row (fst (snd unit)) mode catalog pol (fst unit)) acc (snd (snd unit)))
          acc units))"
  shows "r \<in> set (snd acc) \<or> (\<exists>tu src c key. function_row tu mode catalog pol src c = Some (key, r))"
  using assms
proof (induction units arbitrary: acc)
  case Nil
  then show ?case by simp
next
  case (Cons u us)
  from Cons.IH [OF Cons.prems [simplified]] add_row_rows
  show ?case by blast
qed

lemma run_finder_rows_origin:
  assumes "r \<in> set (run_finder_rows mode catalog pol units)"
  shows "\<exists>tu src c key. function_row tu mode catalog pol src c = Some (key, r)"
  using run_finder_rows_aux [of r mode catalog pol "({}, [])" units] assms
  by (simp add: run_finder_rows_def)

lemma function_row_thin:
  assumes "pol = ''default'' \<or> pol = ''direct-only''"
    and "legacy_map mode = ''relaxed'' \<or> legacy_map mode = ''accurate''"
    and "function_row tu mode catalog pol src c = Some (key, r)"
    and "api_called r \<in> thin_aliases catalog"
  shows "\<not> via_helper_hop r"
proof (cases "legacy_map mode = ''relaxed''")
  case True
  then show ?thesis using assms(3) relaxed_no_hop [of tu c catalog]
    by (auto simp: function_row_def Let_def split: if_splits)
next
  case False
  then have acc: "legacy_map mode = ''accurate''" using assms(2) by simp
  let ?v = "analyze_wrapper_strict_plus tu c catalog pol"
  from assms(3) acc have k: "v_keep ?v" and t: "truthy (v_api_name ?v)"
    and r: "api_called r = the (v_api_name ?v)" "via_helper_hop r = v_via_helper_hop ?v"
    by (auto simp: function_row_def Let_def name_or_def split: if_splits)
  from t obtain a where a: "v_api_name ?v = Some a" "a \<noteq> []"
    by (auto simp: truthy_def split: option.splits)
  show ?thesis
    using strict_plus_thin [OF assms(1) _ a(1) a(2)] k r a assms(4) by auto
qed

text \<open>
  C6, as amended. Under the thin-alias policy default or direct-only, no row that the runner
  emits in relaxed or accurate mode has an api\_called in the thin aliases together with
  via\_helper\_hop = true; and every strict-plus verdict that names a thin alias as its API
  and reports a helper hop is the rejection with the reason reject: thin-alias-via-helper.
\<close>

theorem thin_alias_rows:
  assumes "pol = ''default'' \<or> pol = ''direct-only''"
  shows "(legacy_map mode = ''relaxed'' \<or> legacy_map mode = ''accurate'' \<longrightarrow>
            (\<forall>r \<in> set (run_finder_rows mode catalog pol units).
               api_called r \<in> thin_aliases catalog \<longrightarrow> \<not> via_helper_hop r))
       \<and> (\<forall>a. v_via_helper_hop (analyze_wrapper_strict_plus tu f catalog pol)
              \<and> v_api_name (analyze_wrapper_strict_plus tu f catalog pol) = Some a
              \<and> a \<noteq> [] \<and> a \<in> thin_aliases catalog \<longrightarrow>
              v_reason (analyze_wrapper_strict_plus tu f catalog pol)
                = ''reject: thin-alias-via-helper''
              \<and> \<not> v_keep (analyze_wrapper_strict_plus tu f catalog pol))"
  using assms run_finder_rows_origin [of _ mode catalog pol units]
    function_row_thin [OF assms, of mode _ catalog] strict_plus_thin [OF assms, of tu f catalog]
  by blast


lemmas w0_defs = walk_visit_def add_hit_loc_def add_inner_def line_col_def hits_target_def
  mapped_in_def resolve_syscall_indirection_def inner_target_from_one_hop_def
  resolve_target_name_for_call_def resolved_hits_def truthy_def

lemma str_nat_small: "str_nat 3 = ''3''" "str_nat 4 = ''4''" "str_nat 16 = ''16''"
  "str_nat 30 = ''30''"
  by (simp_all add: str_nat.simps)

lemma plain_wrapper_body:
  "function_body_cursor plain_wrapper = Some (ast COMPOUND_STMT [close_call])"
  by (simp add: plain_wrapper_def ex_defs fn_defs)

lemma plain_wrapper_paths:
  "analyze_stmt tu {''close''} helpers0 2 (ast COMPOUND_STMT [close_call])
     = \<lparr>counts = {1}, unknown = False\<rparr>"
  by (simp add: close_call_def ex_defs analyze_stmt_kinds call_defs cap_union_def)

lemma close_call_fields:
  "kind close_call = CALL_EXPR" "callee_name close_call = ''close''"
  "line_col close_call = ''3:30''" "loc_file (location (attrs close_call)) = Some ''w.c''"
  "get_children close_call = [ast UNEXPOSED_EXPR [Cursor DECL_REF_EXPR (attrs0\<lparr>spelling := ''close''\<rparr>) []], use_var PARM_DECL ''fd'' 7]"
  by (simp_all add: close_call_def call_to_def callee_name_def opt_or_def str_or_def fn_ref_def
        attrs0_def line_col_def at_loc_def str_nat_small)

lemma plain_wrapper_calls:
  "collect_target_calls tu {''close''} plain_wrapper = [(close_call, ''3:30'')]"
  by (simp add: plain_wrapper_def close_call_def ex_defs w0_defs call_defs str_nat_small)

lemma close_call_resolves:
  "resolve_target_name_for_call tu close_call catalog_thin = Some ''close''"
  by (simp add: close_call_def catalog_thin_def ex_defs w0_defs call_defs)

lemma plain_wrapper_walk:
  "walk_calls tu {''close''} helpers0 (ast COMPOUND_STMT [close_call])
     \<lparr>w_via_helper_hop = False, w_ignored_helpers = {}, w_hit_locs = [], w_apis = []\<rparr>
   = \<lparr>w_via_helper_hop = False, w_ignored_helpers = {}, w_hit_locs = [''3:30''],
      w_apis = [''close'']\<rparr>"
  by (simp add: close_call_def ex_defs w0_defs call_defs str_nat_small)

lemma catalog_thin_fields: "target_names catalog_thin = {''close''}"
  "cat_helpers catalog_thin = helpers0" "thin_aliases catalog_thin = {''close''}"
  by (simp_all add: catalog_thin_def)

lemma plain_wrapper_strict:
  "v_keep (analyze_wrapper_strict_plus tu plain_wrapper catalog_thin ''default'')
   \<and> v_api_name (analyze_wrapper_strict_plus tu plain_wrapper catalog_thin ''default'') = Some ''close''
   \<and> v_total_hits (analyze_wrapper_strict_plus tu plain_wrapper catalog_thin ''default'') = 1
   \<and> \<not> v_via_helper_hop (analyze_wrapper_strict_plus tu plain_wrapper catalog_thin ''default'')"
  by (simp add: analyze_wrapper_strict_plus_def plain_wrapper_body plain_wrapper_paths
        plain_wrapper_walk catalog_thin_fields Let_def strict_plus_decide_def
        thin_alias_reject_def str_or_def v_defs)

lemma hop_wrapper_body:
  "function_body_cursor hop_wrapper = Some (ast COMPOUND_STMT [h_call])"
  by (simp add: hop_wrapper_def ex_defs fn_defs)

lemma hop_wrapper_paths:
  "analyze_stmt tu_h {''close''} helpers0 2 (ast COMPOUND_STMT [h_call])
     = \<lparr>counts = {1}, unknown = False\<rparr>"
  by (simp add: h_call_def tu_h_def close_call_def ex_defs analyze_stmt_kinds call_defs cap_union_def)

lemma hop_wrapper_walk:
  "walk_calls tu_h {''close''} helpers0 (ast COMPOUND_STMT [h_call])
     \<lparr>w_via_helper_hop = False, w_ignored_helpers = {}, w_hit_locs = [], w_apis = []\<rparr>
   = \<lparr>w_via_helper_hop = True, w_ignored_helpers = {}, w_hit_locs = [''4:16''],
      w_apis = [''close'']\<rparr>"
  by (simp add: h_call_def tu_h_def close_call_def ex_defs w0_defs call_defs str_nat_small)

lemma hop_wrapper_calls:
  "collect_target_calls tu_h {''close''} hop_wrapper = [(h_call, ''4:16'')]"
  by (simp add: hop_wrapper_def h_call_def tu_h_def close_call_def ex_defs w0_defs call_defs str_nat_small)

lemma h_call_resolves:
  "resolve_target_name_for_call tu_h h_call catalog_thin = Some ''close''"
  by (simp add: h_call_def tu_h_def close_call_def catalog_thin_def ex_defs w0_defs call_defs)

lemma hop_wrapper_strict:
  "analyze_wrapper_strict_plus tu_h hop_wrapper catalog_thin ''default''
   = (False, False, 1, ''reject: thin-alias-via-helper'', [''4:16''], Some ''close'',
      False, [], False, True, [])"
  by (simp add: analyze_wrapper_strict_plus_def hop_wrapper_body hop_wrapper_paths
        hop_wrapper_walk catalog_thin_fields Let_def strict_plus_decide_def
        thin_alias_reject_def str_or_def)


lemma wrapper_attrs:
  "spelling (attrs hop_wrapper) = ''w''" "location (attrs hop_wrapper) = at_loc 3 5"
  "spelling (attrs plain_wrapper) = ''w''" "location (attrs plain_wrapper) = at_loc 3 5"
  by (simp_all add: hop_wrapper_def plain_wrapper_def fn_def_def attrs0_def)

lemmas row_defs = run_finder_rows_def add_row_def function_row_def legacy_map_def
  all_mode_verdict_def name_or_def truthy_def resolved_hits_def at_loc_def

text \<open>
  C6 as stated fails in mode all, which keeps every function: for
  \<^verbatim>\<open>static void h(int fd){ close(fd); }  void w(int fd){ h(fd); }\<close> with \<open>close\<close> a thin
  alias the runner emits the row of the rejected wrapper, with api\_called close and
  via\_helper\_hop true.
\<close>

theorem all_mode_thin_alias_counterexample:
  "map api_called (run_finder_rows ''all'' catalog_thin ''default'' [(''w.c'', tu_h, [hop_wrapper])])
     = [''close'']
   \<and> map via_helper_hop
        (run_finder_rows ''all'' catalog_thin ''default'' [(''w.c'', tu_h, [hop_wrapper])]) = [True]
   \<and> map reason (run_finder_rows ''all'' catalog_thin ''default'' [(''w.c'', tu_h, [hop_wrapper])])
       = [''reject: thin-alias-via-helper'']
   \<and> ''close'' \<in> thin_aliases catalog_thin"
  by (simp add: row_defs wrapper_attrs hop_wrapper_calls h_call_resolves hop_wrapper_strict
        catalog_thin_fields v_defs Let_def)

theorem thin_alias_rows_witness:
  "(''default'' = ''default'' \<or> ''default'' = ''direct-only'')
   \<and> legacy_map ''accurate'' = ''accurate''
   \<and> map api_called
        (run_finder_rows ''accurate'' catalog_thin ''default'' [(''w.c'', Map.empty, [plain_wrapper])])
       = [''close'']
   \<and> ''close'' \<in> thin_aliases catalog_thin
   \<and> map via_helper_hop
        (run_finder_rows ''accurate'' catalog_thin ''default'' [(''w.c'', Map.empty, [plain_wrapper])])
       = [False]
   \<and> v_via_helper_hop (analyze_wrapper_strict_plus tu_h hop_wrapper catalog_thin ''default'')
   \<and> v_api_name (analyze_wrapper_strict_plus tu_h hop_wrapper catalog_thin ''default'')
       = Some ''close''
   \<and> v_reason (analyze_wrapper_strict_plus tu_h hop_wrapper catalog_thin ''default'')
       = ''reject: thin-alias-via-helper''
   \<and> \<not> v_keep (analyze_wrapper_strict_plus tu_h hop_wrapper catalog_thin ''default'')"
proof -
  have p: "''default'' = ''default'' \<or> ''default'' = ''direct-only''" by simp
  have rows: "map api_called
        (run_finder_rows ''accurate'' catalog_thin ''default'' [(''w.c'', Map.empty, [plain_wrapper])])
       = [''close'']"
    using plain_wrapper_strict [of Map.empty]
    by (simp add: row_defs wrapper_attrs catalog_thin_fields Let_def)
  have hop: "v_via_helper_hop (analyze_wrapper_strict_plus tu_h hop_wrapper catalog_thin ''default'')"
    "v_api_name (analyze_wrapper_strict_plus tu_h hop_wrapper catalog_thin ''default'')
       = Some ''close''"
    by (simp_all add: hop_wrapper_strict v_defs)
  from thin_alias_rows [OF p, of "''accurate''" catalog_thin
      "[(''w.c'', Map.empty, [plain_wrapper])]" tu_h hop_wrapper] rows hop
  show ?thesis
    by (auto simp: legacy_map_def catalog_thin_fields)
qed

theorem relaxed_acceptance_witness:
  "function_body_cursor plain_wrapper = Some (ast COMPOUND_STMT [close_call])
   \<and> v_keep (analyze_wrapper_relaxed Map.empty plain_wrapper catalog_thin)
   \<and> v_per_path_single (analyze_wrapper_relaxed Map.empty plain_wrapper catalog_thin)
   \<and> v_derived_from_params (analyze_wrapper_relaxed Map.empty plain_wrapper catalog_thin)
   \<and> v_reason (analyze_wrapper_relaxed Map.empty plain_wrapper catalog_thin) = ''ok''"
  using relaxed_acceptance [OF plain_wrapper_body, of Map.empty catalog_thin]
  by (simp add: catalog_thin_fields plain_wrapper_body plain_wrapper_paths plain_wrapper_calls
        close_call_resolves truthy_def)

lemma catalog_sync_fields: "target_names catalog_sync = {''sync''}"
  "cat_helpers catalog_sync = helpers0" "thin_aliases catalog_sync = {}"
  by (simp_all add: catalog_sync_def)

lemma sync_wrapper_body:
  "function_body_cursor sync_wrapper = Some (ast COMPOUND_STMT [sync_call])"
  by (simp add: sync_wrapper_def ex_defs fn_defs)

lemma sync_wrapper_paths:
  "analyze_stmt tu {''sync''} helpers0 2 (ast COMPOUND_STMT [sync_call])
     = \<lparr>counts = {1}, unknown = False\<rparr>"
  by (simp add: sync_call_def ex_defs analyze_stmt_kinds call_defs cap_union_def)

lemma sync_wrapper_walk:
  "walk_calls tu {''sync''} helpers0 (ast COMPOUND_STMT [sync_call])
     \<lparr>w_via_helper_hop = False, w_ignored_helpers = {}, w_hit_locs = [], w_apis = []\<rparr>
   = \<lparr>w_via_helper_hop = False, w_ignored_helpers = {}, w_hit_locs = [''3:16''],
      w_apis = [''sync'']\<rparr>"
  by (simp add: sync_call_def ex_defs w0_defs call_defs str_nat_small)

lemma sync_wrapper_calls:
  "collect_target_calls tu {''sync''} sync_wrapper = [(sync_call, ''3:16'')]"
  by (simp add: sync_wrapper_def sync_call_def ex_defs w0_defs call_defs str_nat_small)

lemma sync_call_args: "extract_call_args sync_call = []"
  by (simp add: extract_call_args_def sync_call_def call_to_def)

theorem provenance_vacuous_without_arguments_witness:
  "function_body_cursor sync_wrapper \<noteq> None
   \<and> extract_call_args sync_call = []
   \<and> check_arguments_provenance sync_wrapper [sync_call] helpers0 = (True, [])
   \<and> collect_target_calls Map.empty {''sync''} sync_wrapper = [(sync_call, ''3:16'')]
   \<and> v_keep (analyze_wrapper_strict_plus Map.empty sync_wrapper catalog_sync ''default'')
   \<and> v_derived_from_params (analyze_wrapper_strict_plus Map.empty sync_wrapper catalog_sync ''default'')"
proof -
  have k: "v_keep (analyze_wrapper_strict_plus Map.empty sync_wrapper catalog_sync ''default'')"
    by (simp add: analyze_wrapper_strict_plus_def sync_wrapper_body sync_wrapper_paths
        sync_wrapper_walk catalog_sync_fields Let_def strict_plus_decide_def
        thin_alias_reject_def v_defs)
  from provenance_vacuous_without_arguments [of sync_wrapper "[sync_call]" helpers0 Map.empty
      catalog_sync "''default''"] k
  show ?thesis
    by (simp add: sync_wrapper_body sync_call_args sync_wrapper_calls catalog_sync_fields)
qed

section \<open>Properties of the return pass-through classification\<close>

















section \<open>The sanitizer run twice\<close>

lemmas san_defs = sanitize_clang_args_for_libclang_def sanitize_step_def pair_flag_step_def
  joined_flag_step_def split_response_file_def abspath_def startswith_def endswith_def lower_def
  lower_char_def
  basename_def is_obj_or_lib_def is_source_file_def is_warning_def COMPILERS_def DROP_EXACT_def
  DROP_PREFIXES_def PRESERVE_EXACT_def PAIR_FLAGS_def keep_def include_already_present_def
  INCLUDE_FLAGS_def lang_flags_def add_default_includes_def plain_parent_def plain_host_def

lemma sanitize_first_run:
  "sanitize_clang_args_for_libclang plain_host [''cc'', ''-c'', ''/p/foo.c''] ''/p/foo.c'' ''/p''
     = [''-x'', ''c'', ''-working-directory=/p'', ''-I'', ''/usr/include'']"
  by (simp add: san_defs Let_def)

lemma sanitize_second_run:
  "sanitize_clang_args_for_libclang plain_host
     [''-x'', ''c'', ''-working-directory=/p'', ''-I'', ''/usr/include''] ''/p/foo.c'' ''/p''
     = [''-x'', ''c'', ''-I'', ''/usr/include'', ''-working-directory=/p'']"
  by (simp add: san_defs Let_def)

text \<open>
  C9. On the arguments \<^verbatim>\<open>cc -c /p/foo.c\<close> of the source \<^verbatim>\<open>/p/foo.c\<close> in the directory
  \<^verbatim>\<open>/p\<close> the sanitizer is not idempotent. The first run appends the working directory and
  then the system include path. The token loop of the second run keeps the include path
  but keeps no \<^verbatim>\<open>-working-directory\<close> token, so the working directory is appended again,
  now after the include path.
\<close>

theorem sanitizer_second_run_differs:
  "sanitize_clang_args_for_libclang plain_host [''cc'', ''-c'', ''/p/foo.c''] ''/p/foo.c'' ''/p''
     = [''-x'', ''c'', ''-working-directory=/p'', ''-I'', ''/usr/include'']
   \<and> sanitize_clang_args_for_libclang plain_host
         (sanitize_clang_args_for_libclang plain_host [''cc'', ''-c'', ''/p/foo.c''] ''/p/foo.c'' ''/p'')
         ''/p/foo.c'' ''/p''
     = [''-x'', ''c'', ''-I'', ''/usr/include'', ''-working-directory=/p'']
   \<and> sanitize_clang_args_for_libclang plain_host
         (sanitize_clang_args_for_libclang plain_host [''cc'', ''-c'', ''/p/foo.c''] ''/p/foo.c'' ''/p'')
         ''/p/foo.c'' ''/p''
     \<noteq> sanitize_clang_args_for_libclang plain_host [''cc'', ''-c'', ''/p/foo.c''] ''/p/foo.c'' ''/p''"
  by (simp add: sanitize_first_run sanitize_second_run)

end
